theory Spec2Isabelle
  imports Complex_Main "HOL-Library.Word" "HOL-Library.Char_ord" "HOL-Library.List_Lexorder"
begin

unbundle bit_operations_syntax

text \<open>
  Go strings are byte strings: \<open>string\<close> (a list of 8-bit \<open>char\<close>s) is their model.
  A Go \<open>error\<close> is observed through its message, so an error is the message text; a
  function returning \<open>(T, error)\<close> with exactly one of the two set returns \<open>error + T\<close>,
  one that can return both returns the pair.
\<close>

type_synonym error = string

section \<open>UTF-8 (package unicode/utf8 and the string conversions of Go)\<close>

text \<open>
  \<open>Item.MarshalJSON\<close> counts and cuts runes, and \<open>encoding/json\<close> writes strings as
  valid UTF-8, so the decoder and the encoder of Go are modelled on bytes. A rune is a
  natural number (the decoder never returns a negative one); a byte is read as a number
  with \<open>byte\<close>.
\<close>

abbreviation byte :: "char \<Rightarrow> nat" where
  "byte c \<equiv> of_char c"

definition RuneError :: nat where "RuneError = 0xFFFD"
definition MaxRune :: nat where "MaxRune = 0x10FFFF"
definition surrogateMin :: nat where "surrogateMin = 0xD800"
definition surrogateMax :: nat where "surrogateMax = 0xDFFF"

text \<open>
  The table \<open>first\<close> of package utf8, by ranges of the leading byte: \<open>0xF0\<close> marks an
  ASCII byte, \<open>0xF1\<close> a byte that cannot start a sequence; otherwise the low three bits
  are the length of the sequence and the high four bits index \<open>acceptRanges\<close>, the range
  allowed for the second byte.
\<close>

definition utf8_first :: "nat \<Rightarrow> nat" where
  "utf8_first b =
     (if b < 0x80 then 0xF0
      else if b < 0xC2 then 0xF1
      else if b < 0xE0 then 0x02
      else if b = 0xE0 then 0x13
      else if b < 0xED then 0x03
      else if b = 0xED then 0x23
      else if b < 0xF0 then 0x03
      else if b = 0xF0 then 0x34
      else if b < 0xF4 then 0x04
      else if b = 0xF4 then 0x44
      else 0xF1)"

definition acceptRanges :: "nat \<Rightarrow> nat \<times> nat" where
  "acceptRanges i =
     (if i = 1 then (0xA0, 0xBF)
      else if i = 2 then (0x80, 0x9F)
      else if i = 3 then (0x90, 0xBF)
      else if i = 4 then (0x80, 0x8F)
      else (0x80, 0xBF))"

text \<open>
  \<open>utf8.DecodeRuneInString\<close>, check by check as the library makes them. Masks and shifts
  are written arithmetically: \<open>s0 & 0x1F\<close> is \<open>s0 mod 32\<close>, \<open><< 6\<close> is \<open>* 64\<close>, and the
  parts joined by \<open>|\<close> do not overlap, so \<open>|\<close> is \<open>+\<close>. The mask built from the low bit
  of \<open>x\<close> selects the byte itself for \<open>0xF0\<close> and \<open>RuneError\<close> for \<open>0xF1\<close>. Reads
  \<open>s ! i\<close> stand behind the length check the library makes before them.
\<close>

definition DecodeRuneInString :: "string \<Rightarrow> nat \<times> nat" where
  "DecodeRuneInString s =
     (let n = length s in
      if n < 1 then (RuneError, 0)
      else
        let s0 = byte (s ! 0); x = utf8_first s0 in
        if x \<ge> 0xF0 then ((if even x then s0 else RuneError), 1)
        else
          let sz = x mod 8; (lo, hi) = acceptRanges (x div 16) in
          if n < sz then (RuneError, 1)
          else
            let s1 = byte (s ! 1) in
            if s1 < lo \<or> hi < s1 then (RuneError, 1)
            else if sz \<le> 2 then ((s0 mod 32) * 64 + s1 mod 64, 2)
            else
              let s2 = byte (s ! 2) in
              if s2 < 0x80 \<or> 0xBF < s2 then (RuneError, 1)
              else if sz \<le> 3 then ((s0 mod 16) * 4096 + (s1 mod 64) * 64 + s2 mod 64, 3)
              else
                let s3 = byte (s ! 3) in
                if s3 < 0x80 \<or> 0xBF < s3 then (RuneError, 1)
                else ((s0 mod 8) * 262144 + (s1 mod 64) * 4096 + (s2 mod 64) * 64 + s3 mod 64, 4))"

text \<open>
  The conversion \<open>[]rune(s)\<close> decodes rune by rune; an invalid byte gives \<open>RuneError\<close>
  and is one byte wide. A step of size \<open>n\<close> on \<open>c # cs\<close> leaves \<open>drop (n - 1) cs\<close>: every
  step on a non-empty string consumes at least one byte. \<open>utf8.ValidString\<close> holds when
  no step reports an invalid byte, and \<open>utf8.RuneCountInString\<close> counts the steps.
\<close>

fun runes :: "string \<Rightarrow> nat list" where
  "runes [] = []"
| "runes (c # cs) = (let (r, n) = DecodeRuneInString (c # cs) in r # runes (drop (n - 1) cs))"

fun ValidString :: "string \<Rightarrow> bool" where
  "ValidString [] = True"
| "ValidString (c # cs) =
     (let (r, n) = DecodeRuneInString (c # cs) in \<not> (r = RuneError \<and> n = 1) \<and> ValidString (drop (n - 1) cs))"

definition RuneCountInString :: "string \<Rightarrow> nat" where
  "RuneCountInString s = length (runes s)"

text \<open>
  The conversion \<open>string(runes)\<close> appends the encoding of each rune
  (\<open>utf8.AppendRune\<close>); a surrogate or a value beyond \<open>MaxRune\<close> is written as U+FFFD.
\<close>

definition EncodeRune :: "nat \<Rightarrow> string" where
  "EncodeRune r =
     (if r \<le> 0x7F then [char_of r]
      else if r \<le> 0x7FF then [char_of (0xC0 + r div 64), char_of (0x80 + r mod 64)]
      else
        let r = (if r > MaxRune \<or> (surrogateMin \<le> r \<and> r \<le> surrogateMax) then RuneError else r) in
        if r \<le> 0xFFFF
        then [char_of (0xE0 + r div 4096), char_of (0x80 + (r div 64) mod 64), char_of (0x80 + r mod 64)]
        else [char_of (0xF0 + r div 262144), char_of (0x80 + (r div 4096) mod 64),
              char_of (0x80 + (r div 64) mod 64), char_of (0x80 + r mod 64)])"

definition string_of_runes :: "nat list \<Rightarrow> string" where
  "string_of_runes rs = concat (map EncodeRune rs)"

text \<open>
  Predicates for the proofs: the Unicode scalar values, and the continuation bytes.
\<close>

definition scalar :: "nat \<Rightarrow> bool" where
  "scalar r \<longleftrightarrow> r < 0xD800 \<or> (0xE000 \<le> r \<and> r \<le> 0x10FFFF)"

definition cont :: "char \<Rightarrow> bool" where
  "cont c \<longleftrightarrow> 0x80 \<le> byte c \<and> byte c \<le> 0xBF"

section \<open>JSON (package encoding/json)\<close>

text \<open>
  A \<open>jvalue\<close> is a value as \<open>encoding/json\<close> decodes it into \<open>interface{}\<close>: nil, a
  bool, a float64 (its value a rational number), a string, a \<open>[]interface{}\<close> or a
  \<open>map[string]interface{}\<close>. A map is the list of its entries; Go maps have no duplicate
  keys, and a lookup is \<open>map_of\<close>. A nil map behaves on every path below as the empty
  map does (a lookup finds nothing; \<open>Marshal\<close> writes \<open>null\<close>, which \<open>Unmarshal\<close> ignores
  as it ignores the members of \<open>{}\<close>), so the two are not told apart.

  The same type stands for a JSON document: the byte form \<open>Marshal\<close> writes is kept as
  the tree of the text, with the members of an object in the order they are written.
  \<open>Marshal\<close> writes a map with its keys sorted bytewise, and writes every string, keys
  included, coerced to valid UTF-8 (each invalid byte replaced by U+FFFD). It cannot fail
  on such values.
\<close>

definition toValidUTF8 :: "string \<Rightarrow> string" where
  "toValidUTF8 s = string_of_runes (runes s)"

datatype jvalue =
    JNull
  | JBool bool
  | JNum rat
  | JStr string
  | JArr "jvalue list"
  | JObj "(string \<times> jvalue) list"

fun goTypeName :: "jvalue \<Rightarrow> string" where
  "goTypeName JNull = ''<nil>''"
| "goTypeName (JBool _) = ''bool''"
| "goTypeName (JNum _) = ''float64''"
| "goTypeName (JStr _) = ''string''"
| "goTypeName (JArr _) = ''[]interface {}''"
| "goTypeName (JObj _) = ''map[string]interface {}''"

fun json_encode :: "jvalue \<Rightarrow> jvalue" where
  "json_encode JNull = JNull"
| "json_encode (JBool b) = JBool b"
| "json_encode (JNum n) = JNum n"
| "json_encode (JStr s) = JStr (toValidUTF8 s)"
| "json_encode (JArr vs) = JArr (map json_encode vs)"
| "json_encode (JObj ms) = JObj (map (\<lambda>(k, v). (toValidUTF8 k, json_encode v)) (sort_key fst ms))"

definition json_Marshal :: "(string \<times> jvalue) list \<Rightarrow> error + jvalue" where
  "json_Marshal m = Inr (json_encode (JObj m))"

text \<open>
  \<open>Unmarshal\<close> into a struct. The declarations of the structs are not among the sources,
  so a struct type is described by a value: its name as \<open>%T\<close> prints it and its fields,
  each with its JSON name, its kind (string, bool or float64; fields of other Go types
  are outside the model) and the text of the library's error for a JSON value of the
  wrong type. A struct value is the list of its fields' values, keyed by JSON name.
  The library's case folding of keys is a parameter (\<open>foldName\<close>).

  For each member of the object in turn, the field is the one whose name equals the
  key, else the first whose folded name equals the folded key; a key with no field is
  skipped; \<open>null\<close> leaves the field as it is; a value of the field's kind is stored; any
  other value is an error. The library goes on decoding after such an error and returns
  the first one; the caller here discards the struct on error, so the model stops at it.
\<close>

datatype kind = KString | KBool | KFloat64

record Field =
  jsonName :: string
  kind :: kind
  mismatch :: "jvalue \<Rightarrow> error"

record GoType =
  typeName :: string
  structFields :: "Field list"

record JsonLib =
  foldName :: "string \<Rightarrow> string"

type_synonym struct = "(string \<times> jvalue) list"

fun zeroOf :: "kind \<Rightarrow> jvalue" where
  "zeroOf KString = JStr []"
| "zeroOf KBool = JBool False"
| "zeroOf KFloat64 = JNum 0"

definition zeroValue :: "GoType \<Rightarrow> struct" where
  "zeroValue T = map (\<lambda>f. (jsonName f, zeroOf (kind f))) (structFields T)"

definition setField :: "string \<Rightarrow> jvalue \<Rightarrow> struct \<Rightarrow> struct" where
  "setField name v s = map (\<lambda>(n, x). if n = name then (n, v) else (n, x)) s"

definition findField :: "JsonLib \<Rightarrow> Field list \<Rightarrow> string \<Rightarrow> Field option" where
  "findField J fs key =
     (case find (\<lambda>f. jsonName f = key) fs of
        Some f \<Rightarrow> Some f
      | None \<Rightarrow> find (\<lambda>f. foldName J (jsonName f) = foldName J key) fs)"

fun assign :: "Field \<Rightarrow> jvalue \<Rightarrow> error + jvalue option" where
  "assign f JNull = Inr None"
| "assign f (JStr s) = (if kind f = KString then Inr (Some (JStr s)) else Inl (mismatch f (JStr s)))"
| "assign f (JBool b) = (if kind f = KBool then Inr (Some (JBool b)) else Inl (mismatch f (JBool b)))"
| "assign f (JNum n) = (if kind f = KFloat64 then Inr (Some (JNum n)) else Inl (mismatch f (JNum n)))"
| "assign f v = Inl (mismatch f v)"

fun decodeObject :: "JsonLib \<Rightarrow> Field list \<Rightarrow> (string \<times> jvalue) list \<Rightarrow> struct \<Rightarrow> error + struct" where
  "decodeObject J fs [] s = Inr s"
| "decodeObject J fs ((key, v) # ms) s =
     (case findField J fs key of
        None \<Rightarrow> decodeObject J fs ms s
      | Some f \<Rightarrow>
          (case assign f v of
             Inl err \<Rightarrow> Inl err
           | Inr None \<Rightarrow> decodeObject J fs ms s
           | Inr (Some x) \<Rightarrow> decodeObject J fs ms (setField (jsonName f) x s)))"

fun jsonKind :: "jvalue \<Rightarrow> string" where
  "jsonKind JNull = ''null''"
| "jsonKind (JBool _) = ''bool''"
| "jsonKind (JNum _) = ''number''"
| "jsonKind (JStr _) = ''string''"
| "jsonKind (JArr _) = ''array''"
| "jsonKind (JObj _) = ''object''"

definition json_Unmarshal :: "JsonLib \<Rightarrow> GoType \<Rightarrow> jvalue \<Rightarrow> error + struct" where
  "json_Unmarshal J T doc =
     (case doc of
        JNull \<Rightarrow> Inr (zeroValue T)
      | JObj ms \<Rightarrow> decodeObject J (structFields T) ms (zeroValue T)
      | _ \<Rightarrow> Inl (''json: cannot unmarshal '' @ jsonKind doc @ '' into Go value of type '' @ typeName T))"

section \<open>Request dispatch (package yookassa, client.go)\<close>

subsection \<open>The libraries the dispatcher calls\<close>

text \<open>
  \<open>uuid.NewString()\<close> (github.com/google/uuid) reads 16 bytes from the random source,
  stamps version 4 and the RFC 4122 variant into bytes 6 and 8, and prints the bytes in
  lower-case hexadecimal, grouped 8-4-4-4-12 with dashes. The 16 random bytes are the
  argument \<open>rnd\<close>; a random source that fails, on which \<open>NewString\<close> panics, is not
  modelled.
\<close>

definition hextable :: string where
  "hextable = ''0123456789abcdef''"

definition hex_Encode :: "8 word list \<Rightarrow> string" where
  "hex_Encode src = concat (map (\<lambda>v. [hextable ! unat (drop_bit 4 v), hextable ! unat (v AND 0x0f)]) src)"

definition uuid_NewRandom :: "8 word list \<Rightarrow> 8 word list" where
  "uuid_NewRandom rnd =
     (let u = rnd;
          u = u[6 := (u ! 6 AND 0x0f) OR 0x40];
          u = u[8 := (u ! 8 AND 0x3f) OR 0x80]
      in u)"

definition uuid_String :: "8 word list \<Rightarrow> string" where
  "uuid_String u =
     hex_Encode (take 4 u) @ ''-'' @ hex_Encode (take 2 (drop 4 u)) @ ''-'' @
     hex_Encode (take 2 (drop 6 u)) @ ''-'' @ hex_Encode (take 2 (drop 8 u)) @ ''-'' @
     hex_Encode (drop 10 u)"

definition uuid_NewString :: "8 word list \<Rightarrow> string" where
  "uuid_NewString rnd = uuid_String (uuid_NewRandom rnd)"

text \<open>
  \<open>net/http\<close> and \<open>net/url\<close>. A request carries its method, its URL, its header map and
  its body. \<open>Header.Set\<close> replaces the values stored under a key by the single new value
  (the three keys set here are already in canonical form); \<open>Header.Get\<close> reads the first
  value, or the empty string when the key is absent.
\<close>

record URL =
  Location :: string
  RawQuery :: string

type_synonym Header = "string \<rightharpoonup> string list"

record Request =
  Method :: string
  Url :: URL
  Header :: Header
  Body :: string

definition Header_Set :: "string \<Rightarrow> string \<Rightarrow> Header \<Rightarrow> Header" where
  "Header_Set k v h = h(k \<mapsto> [v])"

definition Header_Get :: "Header \<Rightarrow> string \<Rightarrow> string" where
  "Header_Get h k = (case h k of None \<Rightarrow> [] | Some [] \<Rightarrow> [] | Some (v # _) \<Rightarrow> v)"

text \<open>
  What the model leaves to the libraries is a parameter: parsing a URL, quoting a string
  for an error message (\<open>%q\<close>), the Basic credentials (\<open>"Basic " + base64(user:pass)\<close>),
  reading and writing a query string, printing a parameter value (\<open>%v\<close>), the 16 bytes
  the random source delivers, and the transport \<open>http.Client.Do\<close>.
\<close>

record ('v, 'r) Lib =
  url_Parse :: "string \<Rightarrow> error + URL"
  strconv_Quote :: "string \<Rightarrow> string"
  basicAuth :: "string \<Rightarrow> string \<Rightarrow> string"
  url_ParseQuery :: "string \<Rightarrow> (string \<times> string list) list"
  Values_Encode :: "(string \<times> string list) list \<Rightarrow> string"
  fmt_v :: "'v \<Rightarrow> string"
  rand_Read :: "8 word list"
  client_Do :: "Request \<Rightarrow> error + 'r"

text \<open>
  \<open>http.NewRequest\<close>: an empty method means GET; the method must be a non-empty HTTP
  token; the URL must parse. The new request has an empty header map.
\<close>

definition isTokenRune :: "char \<Rightarrow> bool" where
  "isTokenRune c \<longleftrightarrow>
     (CHR ''a'' \<le> c \<and> c \<le> CHR ''z'') \<or> (CHR ''A'' \<le> c \<and> c \<le> CHR ''Z'') \<or>
     (CHR ''0'' \<le> c \<and> c \<le> CHR ''9'') \<or> c \<in> set ''!#$%&*+-.^_|~'' \<or> c = CHR 0x27 \<or> c = CHR 0x60"

definition validMethod :: "string \<Rightarrow> bool" where
  "validMethod m \<longleftrightarrow> m \<noteq> [] \<and> list_all isTokenRune m"

definition http_NewRequest :: "('v, 'r) Lib \<Rightarrow> string \<Rightarrow> string \<Rightarrow> string \<Rightarrow> error + Request" where
  "http_NewRequest L m url body =
     (let m = (if m = [] then ''GET'' else m) in
      if \<not> validMethod m then Inl (''net/http: invalid method '' @ strconv_Quote L m)
      else case url_Parse L url of
             Inl err \<Rightarrow> Inl err
           | Inr u \<Rightarrow> Inr \<lparr>Method = m, Url = u, Header = Map.empty, Body = body\<rparr>)"

definition SetBasicAuth :: "('v, 'r) Lib \<Rightarrow> string \<Rightarrow> string \<Rightarrow> Request \<Rightarrow> Request" where
  "SetBasicAuth L username password req =
     req\<lparr>Header := Header_Set ''Authorization'' (basicAuth L username password) (Header req)\<rparr>"

fun Values_Add :: "string \<Rightarrow> string \<Rightarrow> (string \<times> string list) list \<Rightarrow> (string \<times> string list) list" where
  "Values_Add k v [] = [(k, [v])]"
| "Values_Add k v ((k', vs) # q) = (if k' = k then (k', vs @ [v]) # q else (k', vs) # Values_Add k v q)"

subsection \<open>The client\<close>

definition BaseURL :: string where
  "BaseURL = ''https://api.yookassa.ru/v3/''"

definition MethodPost :: string where
  "MethodPost = ''POST''"

record Client =
  accountId :: string
  secretKey :: string

definition NewClient :: "string \<Rightarrow> string \<Rightarrow> Client" where
  "NewClient a s = \<lparr>accountId = a, secretKey = s\<rparr>"

text \<open>
  \<open>makeRequest\<close>. The network is the effect: the function returns the requests it handed
  to the transport (none when \<open>http.NewRequest\<close> failed, one otherwise) next to its
  result. \<open>params\<close> is \<open>None\<close> for a nil map; the loop over the map is a fold over its
  entries.
\<close>

definition makeRequest ::
  "('v, 'r) Lib \<Rightarrow> Client \<Rightarrow> string \<Rightarrow> string \<Rightarrow> string \<Rightarrow> (string \<times> 'v) list option \<Rightarrow> string
     \<Rightarrow> Request list \<times> (error + 'r)" where
  "makeRequest L c m endpoint body params idempotencyKey =
     (let uri = BaseURL @ endpoint in
      case http_NewRequest L m uri body of
        Inl err \<Rightarrow> ([], Inl err)
      | Inr req \<Rightarrow>
          (let idempotencyKey = (if idempotencyKey = [] then uuid_NewString (rand_Read L) else idempotencyKey);
               req = (if m = MethodPost
                      then req\<lparr>Header := Header_Set ''Idempotence-Key'' idempotencyKey
                                           (Header_Set ''Content-Type'' ''application/json'' (Header req))\<rparr>
                      else req);
               req = SetBasicAuth L (accountId c) (secretKey c) req;
               req = (case params of
                        None \<Rightarrow> req
                      | Some ps \<Rightarrow>
                          (let q = url_ParseQuery L (RawQuery (Url req));
                               q = fold (\<lambda>(paramName, paramVal) q. Values_Add paramName (fmt_v L paramVal) q) ps q
                           in req\<lparr>Url := (Url req)\<lparr>RawQuery := Values_Encode L q\<rparr>\<rparr>))
           in ([req], case client_Do L req of Inl err \<Rightarrow> Inl err | Inr resp \<Rightarrow> Inr resp)))"

text \<open>
  The words of the specification about methods, for comparison with the test the code
  makes (\<open>method == http.MethodPost\<close>): the state-mutating methods of HTTP are POST, PUT,
  PATCH and DELETE; the read-only (safe) ones are GET, HEAD, OPTIONS and TRACE.
\<close>

definition stateMutating :: "string \<Rightarrow> bool" where
  "stateMutating m \<longleftrightarrow> m \<in> {''POST'', ''PUT'', ''PATCH'', ''DELETE''}"

definition readOnly :: "string \<Rightarrow> bool" where
  "readOnly m \<longleftrightarrow> m \<in> {''GET'', ''HEAD'', ''OPTIONS'', ''TRACE''}"

text \<open>What the requests handed to the transport carry under a header key.\<close>

definition wireHeader :: "string \<Rightarrow> Request list \<Rightarrow> string list option list" where
  "wireHeader k sent = map (\<lambda>req. Header req k) sent"

definition wireGet :: "string \<Rightarrow> Request list \<Rightarrow> string list" where
  "wireGet k sent = map (\<lambda>req. Header_Get (Header req) k) sent"

text \<open>
  A stand-in for the libraries, to run the dispatcher on concrete inputs: every URL
  parses, the random source delivers sixteen zero bytes, the transport answers.
\<close>

definition demoLib :: "(string, string) Lib" where
  "demoLib = \<lparr>url_Parse = (\<lambda>u. Inr \<lparr>Location = u, RawQuery = []\<rparr>),
              strconv_Quote = (\<lambda>s. s),
              basicAuth = (\<lambda>u p. ''Basic '' @ u @ '':'' @ p),
              url_ParseQuery = (\<lambda>_. []),
              Values_Encode = (\<lambda>q. concat (map fst q)),
              fmt_v = (\<lambda>v. v),
              rand_Read = replicate 16 0,
              client_Do = (\<lambda>req. Inr ''200 OK'')\<rparr>"

section \<open>The operation handler\<close>

text \<open>
  Modelled from the spec: the operation handler and its idempotency key manager
  (\<open>NewPaymentHandler\<close>, \<open>SetIdempotencyKey\<close>, the dispatch of a handler) are not among the
  sources; only their test \<open>TestIdempotencyKey\<close> is. The handler holds its client and
  one idempotency key slot. \<open>SetKey(key)\<close> stores the key when the slot is empty and is
  a no-op otherwise, and returns the handler. \<open>ConsumeOrGenerate\<close> returns the stored key,
  or a generated token when there is none, and clears the slot. A dispatch consumes the
  key and hands it to \<open>makeRequest\<close>; nothing is specified for a handler without a
  client, and the model returns \<open>None\<close> there.

  The handler is passed by value: \<open>SetIdempotencyKey\<close> returns the handler that holds
  the key, and the key is read on the handler it returns.
\<close>

record PaymentHandler =
  client :: "Client option"
  idempotencyKey :: string

definition NewPaymentHandler :: "Client option \<Rightarrow> PaymentHandler" where
  "NewPaymentHandler c = \<lparr>client = c, idempotencyKey = []\<rparr>"

definition SetIdempotencyKey :: "string \<Rightarrow> PaymentHandler \<Rightarrow> PaymentHandler" where
  "SetIdempotencyKey key h = (if idempotencyKey h = [] then h\<lparr>idempotencyKey := key\<rparr> else h)"



text \<open>
  \<open>TestIdempotencyKey\<close>, from the sources: the list of the failures it reports
  (\<open>t.Errorf\<close>). Its first two checks read the handler after a call to
  \<open>SetIdempotencyKey\<close> whose result is dropped, and expect the slot to be empty still.
\<close>

definition TestIdempotencyKey :: "8 word list \<Rightarrow> string list" where
  "TestIdempotencyKey rnd =
     (let key = uuid_NewString rnd;
          paymentHandler = NewPaymentHandler None;
          discarded = SetIdempotencyKey key paymentHandler;
          e1 = (if idempotencyKey paymentHandler = key
                then [''Wrong behaviour of idempotency key: '' @ key] else []);
          e2 = (if idempotencyKey paymentHandler \<noteq> []
                then [''Idempotency key must be set only for one request''] else []);
          paymentHandler = paymentHandler\<lparr>idempotencyKey := []\<rparr>;
          e3 = (if idempotencyKey (SetIdempotencyKey key paymentHandler) \<noteq> key
                then [''Wrong behaviour of idempotency key: '' @ key] else []);
          e4 = (if idempotencyKey paymentHandler \<noteq> []
                then [''Idempotency key must be set only for one request''] else [])
      in e1 @ e2 @ e3 @ e4)"

section \<open>Payments (package yoopayment, payment.go)\<close>

text \<open>
  The dynamic values the fields \<open>PaymentMethod\<close>, \<open>Confirmation\<close> and \<open>Metadata\<close> hold
  (\<open>interface{}\<close>): a value as the JSON decoder left it (\<open>Generic JNull\<close> is the nil
  interface), a struct value of a named type, or a pointer to one (\<open>None\<close> is the nil
  pointer). \<open>fmt_T\<close> is the type name \<open>%T\<close> prints. Of \<open>Payment\<close> only these three fields
  are read by the functions below; the receiver \<open>p\<close> is taken to be non-nil.
\<close>

datatype any =
    Generic jvalue
  | Struct string struct
  | Pointer string "struct option"

fun fmt_T :: "any \<Rightarrow> string" where
  "fmt_T (Generic v) = goTypeName v"
| "fmt_T (Struct n _) = n"
| "fmt_T (Pointer n _) = ''*'' @ n"

record Payment =
  PaymentMethod :: any
  Confirmation :: any
  Metadata :: any

text \<open>
  A call either panics or returns its pair \<open>(T, error)\<close>; Go returns the value next to
  the error, so both are kept.
\<close>

datatype 'a outcome = Panics string | Returns 'a "error option"

definition nilDereference :: string where
  "nilDereference = ''runtime error: invalid memory address or nil pointer dereference''"

definition GetConfirmationToken :: "Payment \<Rightarrow> string \<times> error option" where
  "GetConfirmationToken p =
     (case Confirmation p of
        Generic (JObj m) \<Rightarrow>
          (case map_of m ''confirmation_token'' of
             None \<Rightarrow> ([], Some ''confirmation_token not found in confirmation map'')
           | Some raw \<Rightarrow>
               (case raw of
                  JStr token \<Rightarrow>
                    if token = [] then ([], Some ''confirmation_token is empty'') else (token, None)
                | _ \<Rightarrow> ([], Some (''confirmation_token is not a string, got '' @ goTypeName raw))))
      | _ \<Rightarrow> ([], Some ''confirmation is not a map''))"

definition GetInvoiceIdFromMetadata :: "Payment \<Rightarrow> string \<times> error option" where
  "GetInvoiceIdFromMetadata p =
     (case Metadata p of
        Generic (JObj m) \<Rightarrow>
          (case map_of m ''invoice_id'' of
             None \<Rightarrow> ([], Some ''invoice_id not found in metadata map'')
           | Some raw \<Rightarrow>
               (case raw of
                  JStr id' \<Rightarrow> if id' = [] then ([], Some ''invoice_id is empty'') else (id', None)
                | _ \<Rightarrow> ([], Some (''invoice_id is not a string, got '' @ goTypeName raw))))
      | _ \<Rightarrow> ([], Some (''metadata is not a map[string]any, got '' @ fmt_T (Metadata p))))"

text \<open>
  \<open>convertPaymentMethod[T]\<close>: the type parameter is the description \<open>T\<close> of the target
  struct. The cases of the type switch are in the order of the source: \<open>*T\<close>, \<open>T\<close>,
  \<open>map[string]interface{}\<close>, default. Dereferencing a nil \<open>*T\<close> panics.
\<close>

definition convertPaymentMethod :: "JsonLib \<Rightarrow> GoType \<Rightarrow> any \<Rightarrow> struct outcome" where
  "convertPaymentMethod J T pm =
     (let zero = zeroValue T;
          unsupported = Returns zero (Some (''unsupported payment method type: '' @ fmt_T pm))
      in case pm of
           Pointer n v \<Rightarrow>
             if n = typeName T
             then (case v of None \<Rightarrow> Panics nilDereference | Some s \<Rightarrow> Returns s None)
             else unsupported
         | Struct n v \<Rightarrow> if n = typeName T then Returns v None else unsupported
         | Generic (JObj v) \<Rightarrow>
             (case json_Marshal v of
                Inl err \<Rightarrow> Returns zero (Some (''failed to marshal map: '' @ err))
              | Inr jsonData \<Rightarrow>
                  (case json_Unmarshal J T jsonData of
                     Inl err \<Rightarrow> Returns zero (Some (''failed to unmarshal to '' @ typeName T @ '': '' @ err))
                   | Inr result \<Rightarrow> Returns result None))
         | _ \<Rightarrow> unsupported)"

definition GetBasePaymentMethod :: "JsonLib \<Rightarrow> GoType \<Rightarrow> Payment \<Rightarrow> struct outcome" where
  "GetBasePaymentMethod J BasePaymentMethod p = convertPaymentMethod J BasePaymentMethod (PaymentMethod p)"

definition GetPaymentMethodWithCard :: "JsonLib \<Rightarrow> GoType \<Rightarrow> Payment \<Rightarrow> struct outcome" where
  "GetPaymentMethodWithCard J PaymentMethodWithCard p =
     convertPaymentMethod J PaymentMethodWithCard (PaymentMethod p)"

text \<open>
  \<open>PaymentTypeSBP\<close> is declared outside the sources at hand; the specification gives its
  value (\<open>type == "sbp"\<close>). \<open>sbp.paymentMethod.Type\<close> and the promoted \<open>sbp.Type\<close> are the
  string field with the JSON name \<open>type\<close>. \<open>fmt.Println("ALE", sbp.Type)\<close> writes one
  line to standard output; the function returns the lines written next to its result.
\<close>

definition PaymentTypeSBP :: string where
  "PaymentTypeSBP = ''sbp''"

definition paymentMethod_Type :: "struct \<Rightarrow> string" where
  "paymentMethod_Type s = (case map_of s ''type'' of Some (JStr t) \<Rightarrow> t | _ \<Rightarrow> [])"

definition GetPaymentMethodSbp :: "JsonLib \<Rightarrow> GoType \<Rightarrow> Payment \<Rightarrow> string list \<times> struct outcome" where
  "GetPaymentMethodSbp J SBP p =
     (case convertPaymentMethod J SBP (PaymentMethod p) of
        Panics msg \<Rightarrow> ([], Panics msg)
      | Returns sbp (Some err) \<Rightarrow> ([], Returns sbp (Some err))
      | Returns sbp None \<Rightarrow>
          (let stdout = [''ALE '' @ paymentMethod_Type sbp] in
           if paymentMethod_Type sbp \<noteq> PaymentTypeSBP
           then (stdout, Returns sbp (Some (''payment method is not SBP, got '' @ paymentMethod_Type sbp)))
           else (stdout, Returns sbp None)))"

subsection \<open>Predicates used to state the properties\<close>

text \<open>
  \<open>asMap\<close> reads a dynamic value as a generic mapping (the type assertion
  \<open>v.(map[string]any)\<close>); \<open>isString\<close> is the assertion \<open>raw.(string)\<close>. A mapping is
  shaped as a Go type when its keys are distinct, valid UTF-8 and each the JSON name of a
  field of the type, and each value is of the field's kind (a string value being valid
  UTF-8, as every string decoded from JSON is). The discriminator of a mapping is the
  string under its \<open>type\<close> key, and the empty string when there is none.
\<close>

definition asMap :: "any \<Rightarrow> (string \<times> jvalue) list option" where
  "asMap v = (case v of Generic (JObj m) \<Rightarrow> Some m | _ \<Rightarrow> None)"

fun isString :: "jvalue \<Rightarrow> bool" where
  "isString (JStr _) = True"
| "isString _ = False"

fun fits :: "kind \<Rightarrow> jvalue \<Rightarrow> bool" where
  "fits KString (JStr s) = ValidString s"
| "fits KBool (JBool _) = True"
| "fits KFloat64 (JNum _) = True"
| "fits _ _ = False"

definition shapedAs :: "GoType \<Rightarrow> (string \<times> jvalue) list \<Rightarrow> bool" where
  "shapedAs T m \<longleftrightarrow>
     distinct (map fst m) \<and>
     list_all (\<lambda>(k, v). ValidString k \<and>
                 (case find (\<lambda>f. jsonName f = k) (structFields T) of
                    Some f \<Rightarrow> fits (kind f) v
                  | None \<Rightarrow> False)) m"

definition discriminator :: "(string \<times> jvalue) list \<Rightarrow> string" where
  "discriminator m = (case map_of m ''type'' of Some (JStr t) \<Rightarrow> t | _ \<Rightarrow> [])"

definition entryOk :: "Field list \<Rightarrow> string \<times> jvalue \<Rightarrow> bool" where
  "entryOk fs e \<longleftrightarrow> ValidString (fst e) \<and>
     (case find (\<lambda>f. jsonName f = fst e) fs of Some f \<Rightarrow> fits (kind f) (snd e) | None \<Rightarrow> False)"

subsection \<open>The resolution strategy in the specification's order\<close>

text \<open>
  The specification words the resolution as an ordered strategy: try the exact type
  match, then the pointer-dereference match, then the decode from a generic mapping, and
  fail otherwise. \<open>resolveOrdered\<close> follows those words, to be compared with
  \<open>convertPaymentMethod\<close>, whose type switch lists the pointer case first.
\<close>

definition exactMatch :: "GoType \<Rightarrow> any \<Rightarrow> struct option" where
  "exactMatch T pm = (case pm of Struct n v \<Rightarrow> if n = typeName T then Some v else None | _ \<Rightarrow> None)"

definition pointerMatch :: "GoType \<Rightarrow> any \<Rightarrow> struct option option" where
  "pointerMatch T pm = (case pm of Pointer n v \<Rightarrow> if n = typeName T then Some v else None | _ \<Rightarrow> None)"

definition decodeFromMapping :: "JsonLib \<Rightarrow> GoType \<Rightarrow> (string \<times> jvalue) list \<Rightarrow> struct outcome" where
  "decodeFromMapping J T m =
     (case json_Marshal m of
        Inl err \<Rightarrow> Returns (zeroValue T) (Some (''failed to marshal map: '' @ err))
      | Inr jsonData \<Rightarrow>
          (case json_Unmarshal J T jsonData of
             Inl err \<Rightarrow> Returns (zeroValue T) (Some (''failed to unmarshal to '' @ typeName T @ '': '' @ err))
           | Inr result \<Rightarrow> Returns result None))"

definition resolveOrdered :: "JsonLib \<Rightarrow> GoType \<Rightarrow> any \<Rightarrow> struct outcome" where
  "resolveOrdered J T pm =
     (case exactMatch T pm of
        Some v \<Rightarrow> Returns v None
      | None \<Rightarrow>
          (case pointerMatch T pm of
             Some ptr \<Rightarrow> (case ptr of None \<Rightarrow> Panics nilDereference | Some v \<Rightarrow> Returns v None)
           | None \<Rightarrow>
               (case asMap pm of
                  Some m \<Rightarrow> decodeFromMapping J T m
                | None \<Rightarrow> Returns (zeroValue T) (Some (''unsupported payment method type: '' @ fmt_T pm)))))"

subsection \<open>Sample types and values\<close>

text \<open>
  The declarations of the variant structs are not part of the sources at hand, so every
  function above takes the description of its target type as an argument. To run them on
  concrete inputs: a JSON library that folds ASCII letters only, and a payment method
  type with the fields \<open>type\<close>, \<open>id\<close>, \<open>saved\<close> and \<open>title\<close>.
\<close>

definition asciiLower :: "char \<Rightarrow> char" where
  "asciiLower c = (if CHR ''A'' \<le> c \<and> c \<le> CHR ''Z'' then char_of (byte c + 32) else c)"

definition demoJson :: JsonLib where
  "demoJson = \<lparr>foldName = map asciiLower\<rparr>"

definition demoField :: "string \<Rightarrow> kind \<Rightarrow> Field" where
  "demoField n k = \<lparr>jsonName = n, kind = k,
     mismatch = (\<lambda>v. ''json: cannot unmarshal '' @ jsonKind v @ '' into Go struct field '' @ n)\<rparr>"

definition demoFields :: "Field list" where
  "demoFields = [demoField ''type'' KString, demoField ''id'' KString,
                 demoField ''saved'' KBool, demoField ''title'' KString]"

definition demoBase :: GoType where
  "demoBase = \<lparr>typeName = ''yoopayment.BasePaymentMethod'', structFields = demoFields\<rparr>"

definition demoSBP :: GoType where
  "demoSBP = \<lparr>typeName = ''yoopayment.SBP'', structFields = demoFields\<rparr>"

definition paymentOf :: "any \<Rightarrow> Payment" where
  "paymentOf pm = \<lparr>PaymentMethod = pm, Confirmation = Generic JNull, Metadata = Generic JNull\<rparr>"

section \<open>Receipt items (package yoocommon, item.go)\<close>

text \<open>
  The struct \<open>Item\<close>. \<open>Amount\<close> is a pointer to a struct declared outside the sources at
  hand: its type is a parameter, \<open>None\<close> is the nil pointer, and its encoding is an
  argument of the functions below.
\<close>

record 'a Item =
  Description :: string
  Quantity :: int
  Amount :: "'a option"
  VatCode :: int
  Measure :: string
  PaymentSubject :: string
  PaymentMode :: string

definition MAX_DESCRIPTION_LENGTH :: nat where
  "MAX_DESCRIPTION_LENGTH = 128"

text \<open>
  \<open>json.Marshal(Alias(truncated))\<close>: \<open>Alias\<close> has the fields and tags of \<open>Item\<close> and no
  methods, so the struct is written field by field under the names of its tags, the
  three \<open>omitempty\<close> strings only when they are not empty, every string coerced to valid
  UTF-8. The result is the document as a tree.
\<close>

definition omitempty :: "string \<Rightarrow> string \<Rightarrow> (string \<times> jvalue) list" where
  "omitempty name s = (if s = [] then [] else [(name, JStr (toValidUTF8 s))])"

definition json_Marshal_Alias :: "('a \<Rightarrow> error + jvalue) \<Rightarrow> 'a Item \<Rightarrow> error + jvalue" where
  "json_Marshal_Alias marshalAmount u =
     (case (case Amount u of None \<Rightarrow> Inr JNull | Some a \<Rightarrow> marshalAmount a) of
        Inl err \<Rightarrow> Inl err
      | Inr amount \<Rightarrow>
          Inr (JObj ([(''description'', JStr (toValidUTF8 (Description u))),
                      (''quantity'', JNum (of_int (Quantity u))),
                      (''amount'', amount),
                      (''vat_code'', JNum (of_int (VatCode u)))] @
                     omitempty ''measure'' (Measure u) @
                     omitempty ''payment_subject'' (PaymentSubject u) @
                     omitempty ''payment_mode'' (PaymentMode u))))"

text \<open>
  \<open>Item.MarshalJSON\<close>. The receiver is a value, and \<open>truncated\<close> a copy of it: the item
  of the caller is not changed.
\<close>

definition Item_MarshalJSON :: "('a \<Rightarrow> error + jvalue) \<Rightarrow> 'a Item \<Rightarrow> error + jvalue" where
  "Item_MarshalJSON marshalAmount u =
     (let truncated = u;
          truncated =
            (if RuneCountInString (Description u) > MAX_DESCRIPTION_LENGTH
             then (let rs = runes (Description u)
                   in truncated\<lparr>Description := string_of_runes (take MAX_DESCRIPTION_LENGTH rs)\<rparr>)
             else truncated)
      in json_Marshal_Alias marshalAmount truncated)"

text \<open>The description a document carries, and an item to run the function on: 130
  times the two-byte rune U+042F.\<close>

definition descriptionOf :: "jvalue \<Rightarrow> string option" where
  "descriptionOf doc =
     (case doc of JObj ms \<Rightarrow> (case map_of ms ''description'' of Some (JStr d) \<Rightarrow> Some d | _ \<Rightarrow> None)
      | _ \<Rightarrow> None)"

definition demoItem :: "unit Item" where
  "demoItem = \<lparr>Description = string_of_runes (replicate 130 0x42F), Quantity = 1, Amount = None,
                VatCode = 1, Measure = [], PaymentSubject = [], PaymentMode = []\<rparr>"

section \<open>Properties of the UTF-8 functions\<close>

lemma first_ascii: "b < 0x80 \<Longrightarrow> utf8_first b = 0xF0"
  by (simp add: utf8_first_def)

lemma first_bad: "0x80 \<le> b \<Longrightarrow> b < 0xC2 \<or> 0xF5 \<le> b \<Longrightarrow> utf8_first b = 0xF1"
  by (auto simp add: utf8_first_def)

lemma first_2: "0xC2 \<le> b \<Longrightarrow> b < 0xE0 \<Longrightarrow> utf8_first b = 0x02"
  by (simp add: utf8_first_def)

lemma first_3:
  "0xE0 \<le> b \<Longrightarrow> b < 0xF0 \<Longrightarrow>
   utf8_first b = (if b = 0xE0 then 0x13 else if b = 0xED then 0x23 else 0x03)"
  by (simp add: utf8_first_def)

lemma first_4:
  "0xF0 \<le> b \<Longrightarrow> b < 0xF5 \<Longrightarrow>
   utf8_first b = (if b = 0xF0 then 0x34 else if b = 0xF4 then 0x44 else 0x04)"
  by (simp add: utf8_first_def)

lemma decode_ascii: "byte c0 < 0x80 \<Longrightarrow> DecodeRuneInString (c0 # t) = (byte c0, 1)"
  by (simp add: DecodeRuneInString_def first_ascii)

lemma decode_bad_lead:
  "0x80 \<le> byte c0 \<Longrightarrow> byte c0 < 0xC2 \<or> 0xF5 \<le> byte c0 \<Longrightarrow> DecodeRuneInString (c0 # t) = (RuneError, 1)"
  by (simp add: DecodeRuneInString_def first_bad)

lemma decode_2:
  assumes "0xC2 \<le> byte c0" "byte c0 < 0xE0"
  shows "DecodeRuneInString (c0 # t) =
     (case t of c1 # _ \<Rightarrow> if cont c1 then ((byte c0 mod 32) * 64 + byte c1 mod 64, 2) else (RuneError, 1)
      | [] \<Rightarrow> (RuneError, 1))"
  by (cases t) (auto simp add: DecodeRuneInString_def first_2[OF assms] acceptRanges_def cont_def Let_def)

lemma decode_3:
  assumes "0xE0 \<le> byte c0" "byte c0 < 0xF0"
  shows "DecodeRuneInString (c0 # t) =
     (case t of c1 # c2 # _ \<Rightarrow>
         if cont c1 \<and> (byte c0 = 0xE0 \<longrightarrow> 0xA0 \<le> byte c1) \<and> (byte c0 = 0xED \<longrightarrow> byte c1 \<le> 0x9F) \<and> cont c2
         then ((byte c0 mod 16) * 4096 + (byte c1 mod 64) * 64 + byte c2 mod 64, 3) else (RuneError, 1)
      | _ \<Rightarrow> (RuneError, 1))"
proof (cases t)
  case Nil
  then show ?thesis by (simp add: DecodeRuneInString_def first_3[OF assms] acceptRanges_def Let_def)
next
  case (Cons c1 t1)
  show ?thesis
  proof (cases t1)
    case Nil
    with Cons show ?thesis by (simp add: DecodeRuneInString_def first_3[OF assms] acceptRanges_def Let_def)
  next
    case (Cons c2 t2)
    with \<open>t = c1 # t1\<close> show ?thesis
      by (auto simp add: DecodeRuneInString_def first_3[OF assms] acceptRanges_def cont_def Let_def)
  qed
qed

lemma decode_4:
  assumes "0xF0 \<le> byte c0" "byte c0 < 0xF5"
  shows "DecodeRuneInString (c0 # t) =
     (case t of c1 # c2 # c3 # _ \<Rightarrow>
         if cont c1 \<and> (byte c0 = 0xF0 \<longrightarrow> 0x90 \<le> byte c1) \<and> (byte c0 = 0xF4 \<longrightarrow> byte c1 \<le> 0x8F) \<and>
            cont c2 \<and> cont c3
         then ((byte c0 mod 8) * 262144 + (byte c1 mod 64) * 4096 + (byte c2 mod 64) * 64 + byte c3 mod 64, 4)
         else (RuneError, 1)
      | _ \<Rightarrow> (RuneError, 1))"
proof (cases t)
  case Nil
  then show ?thesis by (simp add: DecodeRuneInString_def first_4[OF assms] acceptRanges_def Let_def)
next
  case (Cons c1 t1)
  note t = this
  show ?thesis
  proof (cases t1)
    case Nil
    with t show ?thesis by (simp add: DecodeRuneInString_def first_4[OF assms] acceptRanges_def Let_def)
  next
    case (Cons c2 t2)
    note t1 = this
    show ?thesis
    proof (cases t2)
      case Nil
      with t t1 show ?thesis by (simp add: DecodeRuneInString_def first_4[OF assms] acceptRanges_def Let_def)
    next
      case (Cons c3 t3)
      with t t1 show ?thesis
        by (auto simp add: DecodeRuneInString_def first_4[OF assms] acceptRanges_def cont_def Let_def)
    qed
  qed
qed

lemma lead_decomp:
  fixes x :: nat
  assumes "k * m \<le> x" "x < k * m + m"
  shows "x = k * m + x mod m"
proof -
  have "x div m = k"
    by (rule div_nat_eqI) (use assms in \<open>simp_all add: mult.commute\<close>)
  then show ?thesis
    using div_mult_mod_eq[of x m] by simp
qed

lemma cont_decomp: "cont c \<Longrightarrow> byte c = 128 + byte c mod 64"
  using lead_decomp[of 2 64 "byte c"] by (simp add: cont_def)

lemma join2:
  fixes a e :: nat
  assumes "e < 64"
  shows "(a * 64 + e) div 64 = a" "(a * 64 + e) mod 64 = e"
  using assms by simp_all

lemma mod_shift: "(c::nat) < m \<Longrightarrow> (k * m + c) mod m = c"
  by simp

lemma div_shift: "(c::nat) < m \<Longrightarrow> (k * m + c) div m = k"
  by simp

lemma join3:
  fixes a b c :: nat
  assumes "b < 64" "c < 64"
  shows "(a * 4096 + b * 64 + c) div 4096 = a"
        "((a * 4096 + b * 64 + c) div 64) mod 64 = b"
        "(a * 4096 + b * 64 + c) mod 64 = c"
proof -
  have r: "a * 4096 + b * 64 + c = (a * 64 + b) * 64 + c" by simp
  have d: "(a * 4096 + b * 64 + c) div 64 = a * 64 + b"
    using div_shift[OF assms(2), of "a * 64 + b"] by (simp only: r)
  show "((a * 4096 + b * 64 + c) div 64) mod 64 = b"
    using mod_shift[OF assms(1), of a] by (simp only: d)
  show "(a * 4096 + b * 64 + c) mod 64 = c"
    using mod_shift[OF assms(2), of "a * 64 + b"] by (simp only: r)
  have "(a * 4096 + b * 64 + c) div 4096 = ((a * 4096 + b * 64 + c) div 64) div 64"
    using div_mult2_eq[of "a * 4096 + b * 64 + c" 64 64] by simp
  then show "(a * 4096 + b * 64 + c) div 4096 = a"
    using div_shift[OF assms(1), of a] by (simp only: d)
qed

lemma join4:
  fixes a b c d :: nat
  assumes "b < 64" "c < 64" "d < 64"
  shows "(a * 262144 + b * 4096 + c * 64 + d) div 262144 = a"
        "((a * 262144 + b * 4096 + c * 64 + d) div 4096) mod 64 = b"
        "((a * 262144 + b * 4096 + c * 64 + d) div 64) mod 64 = c"
        "(a * 262144 + b * 4096 + c * 64 + d) mod 64 = d"
proof -
  let ?r = "a * 262144 + b * 4096 + c * 64 + d"
  have r: "?r = (a * 64 + b) * 4096 + c * 64 + d" by simp
  show "(?r div 64) mod 64 = c"
    using join3(2)[OF assms(2,3), of "a * 64 + b"] by (simp only: r)
  show "?r mod 64 = d"
    using join3(3)[OF assms(2,3), of "a * 64 + b"] by (simp only: r)
  have d1: "?r div 4096 = a * 64 + b"
    using join3(1)[OF assms(2,3), of "a * 64 + b"] by (simp only: r)
  show "(?r div 4096) mod 64 = b"
    using mod_shift[OF assms(1), of a] by (simp only: d1)
  have "?r div 262144 = (?r div 4096) div 64"
    using div_mult2_eq[of ?r 4096 64] by simp
  then show "?r div 262144 = a"
    using div_shift[OF assms(1), of a] by (simp only: d1)
qed

text \<open>What a decoding step returns, class by class of the leading byte.\<close>

lemma decode_cases:
  obtains (ascii) "byte ch < 0x80" "DecodeRuneInString (ch # rest) = (byte ch, 1)"
  | (bad) "DecodeRuneInString (ch # rest) = (RuneError, 1)"
  | (two) a e c1 t1 where "rest = c1 # t1" "byte ch = 192 + a" "2 \<le> a" "a < 32" "byte c1 = 128 + e" "e < 64"
      "DecodeRuneInString (ch # rest) = (a * 64 + e, 2)"
  | (three) a b c c1 c2 t2 where "rest = c1 # c2 # t2" "byte ch = 224 + a" "a < 16"
      "byte c1 = 128 + b" "b < 64" "byte c2 = 128 + c" "c < 64" "a = 0 \<longrightarrow> 32 \<le> b" "a = 13 \<longrightarrow> b < 32"
      "DecodeRuneInString (ch # rest) = (a * 4096 + b * 64 + c, 3)"
  | (four) a b c d c1 c2 c3 t3 where "rest = c1 # c2 # c3 # t3" "byte ch = 240 + a" "a < 5"
      "byte c1 = 128 + b" "b < 64" "byte c2 = 128 + c" "c < 64" "byte c3 = 128 + d" "d < 64"
      "a = 0 \<longrightarrow> 16 \<le> b" "a = 4 \<longrightarrow> b < 16"
      "DecodeRuneInString (ch # rest) = (a * 262144 + b * 4096 + c * 64 + d, 4)"
proof -
  have lt: "byte ch < 256" by simp
  consider (A) "byte ch < 0x80" | (B) "0x80 \<le> byte ch" "byte ch < 0xC2 \<or> 0xF5 \<le> byte ch"
    | (C2) "0xC2 \<le> byte ch" "byte ch < 0xE0" | (C3) "0xE0 \<le> byte ch" "byte ch < 0xF0"
    | (C4) "0xF0 \<le> byte ch" "byte ch < 0xF5"
    by linarith
  then show thesis
  proof cases
    case A
    then show ?thesis using decode_ascii[OF A] ascii by blast
  next
    case B
    then show ?thesis using decode_bad_lead[OF B] bad by blast
  next
    case C2
    note D = decode_2[OF C2, of rest]
    show ?thesis
    proof (cases rest)
      case Nil
      with D bad show ?thesis by simp
    next
      case (Cons c1 t1)
      show ?thesis
      proof (cases "cont c1")
        case False
        with D Cons bad show ?thesis by simp
      next
        case True
        have s0: "byte ch = 6 * 32 + byte ch mod 32"
          by (rule lead_decomp) (use C2 in simp_all)
        have s1: "byte c1 = 128 + byte c1 mod 64" by (rule cont_decomp[OF True])
        have a2: "2 \<le> byte ch mod 32" using s0 C2(1) by linarith
        show ?thesis
          by (rule two[of c1 t1 "byte ch mod 32" "byte c1 mod 64"])
             (use Cons D True s0 s1 a2 in simp_all)
      qed
    qed
  next
    case C3
    note D = decode_3[OF C3, of rest]
    show ?thesis
    proof (cases "\<exists>c1 c2 t2. rest = c1 # c2 # t2 \<and> cont c1 \<and> (byte ch = 0xE0 \<longrightarrow> 0xA0 \<le> byte c1) \<and>
                     (byte ch = 0xED \<longrightarrow> byte c1 \<le> 0x9F) \<and> cont c2")
      case False
      then have "DecodeRuneInString (ch # rest) = (RuneError, 1)"
        unfolding D by (auto split: list.splits)
      then show ?thesis by (rule bad)
    next
      case True
      then obtain c1 c2 t2 where rest: "rest = c1 # c2 # t2" and c: "cont c1" "cont c2"
        and lo: "byte ch = 0xE0 \<longrightarrow> 0xA0 \<le> byte c1" and hi: "byte ch = 0xED \<longrightarrow> byte c1 \<le> 0x9F"
        by blast
      have s0: "byte ch = 14 * 16 + byte ch mod 16"
        by (rule lead_decomp) (use C3 in simp_all)
      have s1: "byte c1 = 128 + byte c1 mod 64" and s2: "byte c2 = 128 + byte c2 mod 64"
        by (rule cont_decomp[OF c(1)], rule cont_decomp[OF c(2)])
      have lo': "byte ch mod 16 = 0 \<longrightarrow> 32 \<le> byte c1 mod 64" using lo s0 s1 by linarith
      have hi': "byte ch mod 16 = 13 \<longrightarrow> byte c1 mod 64 < 32" using hi s0 s1 by linarith
      have R: "DecodeRuneInString (ch # rest) =
          (byte ch mod 16 * 4096 + byte c1 mod 64 * 64 + byte c2 mod 64, 3)"
        using D c lo hi unfolding rest by simp
      show ?thesis
        by (rule three[of c1 c2 t2 "byte ch mod 16" "byte c1 mod 64" "byte c2 mod 64"])
           (use rest s0 s1 s2 lo' hi' R in simp_all)
    qed
  next
    case C4
    note D = decode_4[OF C4, of rest]
    show ?thesis
    proof (cases "\<exists>c1 c2 c3 t3. rest = c1 # c2 # c3 # t3 \<and> cont c1 \<and> (byte ch = 0xF0 \<longrightarrow> 0x90 \<le> byte c1) \<and>
                     (byte ch = 0xF4 \<longrightarrow> byte c1 \<le> 0x8F) \<and> cont c2 \<and> cont c3")
      case False
      then have "DecodeRuneInString (ch # rest) = (RuneError, 1)"
        unfolding D by (auto split: list.splits)
      then show ?thesis by (rule bad)
    next
      case True
      then obtain c1 c2 c3 t3 where rest: "rest = c1 # c2 # c3 # t3" and c: "cont c1" "cont c2" "cont c3"
        and lo: "byte ch = 0xF0 \<longrightarrow> 0x90 \<le> byte c1" and hi: "byte ch = 0xF4 \<longrightarrow> byte c1 \<le> 0x8F"
        by blast
      have s0: "byte ch = 30 * 8 + byte ch mod 8"
        by (rule lead_decomp) (use C4 in simp_all)
      have s1: "byte c1 = 128 + byte c1 mod 64" and s2: "byte c2 = 128 + byte c2 mod 64"
        and s3: "byte c3 = 128 + byte c3 mod 64"
        by (rule cont_decomp[OF c(1)], rule cont_decomp[OF c(2)], rule cont_decomp[OF c(3)])
      have a5: "byte ch mod 8 < 5" using s0 C4(2) by linarith
      have lo': "byte ch mod 8 = 0 \<longrightarrow> 16 \<le> byte c1 mod 64" using lo s0 s1 by linarith
      have hi': "byte ch mod 8 = 4 \<longrightarrow> byte c1 mod 64 < 16" using hi s0 s1 by linarith
      have R: "DecodeRuneInString (ch # rest) =
          (byte ch mod 8 * 262144 + byte c1 mod 64 * 4096 + byte c2 mod 64 * 64 + byte c3 mod 64, 4)"
        using D c lo hi unfolding rest by simp
      show ?thesis
        by (rule four[of c1 c2 c3 t3 "byte ch mod 8" "byte c1 mod 64" "byte c2 mod 64" "byte c3 mod 64"])
           (use rest s0 s1 s2 s3 a5 lo' hi' R in simp_all)
    qed
  qed
qed

lemmas enc_defs = EncodeRune_def MaxRune_def surrogateMin_def surrogateMax_def RuneError_def Let_def

lemma EncodeRune_2: "0x80 \<le> r \<Longrightarrow> r \<le> 0x7FF \<Longrightarrow>
    EncodeRune r = [char_of (0xC0 + r div 64), char_of (0x80 + r mod 64)]"
  by (simp add: enc_defs)

lemma EncodeRune_3: "0x800 \<le> r \<Longrightarrow> r \<le> 0xFFFF \<Longrightarrow> \<not> (0xD800 \<le> r \<and> r \<le> 0xDFFF) \<Longrightarrow>
    EncodeRune r = [char_of (0xE0 + r div 4096), char_of (0x80 + (r div 64) mod 64), char_of (0x80 + r mod 64)]"
  by (auto simp add: enc_defs)

lemma EncodeRune_4: "0x10000 \<le> r \<Longrightarrow> r \<le> 0x10FFFF \<Longrightarrow>
    EncodeRune r = [char_of (0xF0 + r div 262144), char_of (0x80 + (r div 4096) mod 64),
                    char_of (0x80 + (r div 64) mod 64), char_of (0x80 + r mod 64)]"
  by (simp add: enc_defs)

lemma EncodeRune_length: "length (EncodeRune r) \<in> {1, 2, 3, 4}"
  by (simp add: enc_defs)

lemma char_of_byte: "byte c = n \<Longrightarrow> char_of n = c"
  by (metis char_of_char)

text \<open>Encoding the rune a decoding step returned gives back the bytes the step consumed,
  unless the step reported an invalid byte.\<close>

lemma Encode_Decode:
  assumes D: "DecodeRuneInString (c0 # t) = (r, n)" and V: "\<not> (r = RuneError \<and> n = 1)"
  shows "EncodeRune r = take n (c0 # t)"
proof (cases rule: decode_cases[where ch=c0 and rest=t])
  case ascii
  with D have "r = byte c0" "n = 1" by simp_all
  with ascii(1) show ?thesis by (simp add: enc_defs)
next
  case bad
  with D V show ?thesis by simp
next
  case (two a e c1 t1)
  from two(7) D have r: "r = a * 64 + e" and n: "n = 2" by simp_all
  have rd: "r div 64 = a" "r mod 64 = e" unfolding r using join2[OF two(6), of a] by simp_all
  have "0x80 \<le> r" "r \<le> 0x7FF" using two(3,4,6) r by simp_all
  then have "EncodeRune r = [char_of (192 + a), char_of (128 + e)]"
    using EncodeRune_2[of r] by (simp add: rd)
  also have "\<dots> = [c0, c1]" using char_of_byte[OF two(2)] char_of_byte[OF two(5)] by simp
  finally show ?thesis by (simp add: n two(1))
next
  case (three a b c c1 c2 t2)
  from three(10) D have r: "r = a * 4096 + b * 64 + c" and n: "n = 3" by simp_all
  have rd: "r div 4096 = a" "(r div 64) mod 64 = b" "r mod 64 = c"
    unfolding r using join3[OF three(5,7), of a] by simp_all
  have lo: "0x800 \<le> r" using three(8) r by (cases "a = 0") simp_all
  have hi: "r \<le> 0xFFFF" using three(3,5,7) r by simp
  have ns: "\<not> (0xD800 \<le> r \<and> r \<le> 0xDFFF)"
  proof (cases "a = 13")
    case True
    with three(9) have "b < 32" by simp
    with True three(7) r show ?thesis by simp
  next
    case False
    then have "a \<le> 12 \<or> 14 \<le> a" by linarith
    with three(5,7) r show ?thesis by auto
  qed
  have "EncodeRune r = [char_of (224 + a), char_of (128 + b), char_of (128 + c)]"
    using EncodeRune_3[OF lo hi ns] by (simp add: rd)
  also have "\<dots> = [c0, c1, c2]"
    using char_of_byte[OF three(2)] char_of_byte[OF three(4)] char_of_byte[OF three(6)] by simp
  finally show ?thesis by (simp add: n three(1))
next
  case (four a b c d c1 c2 c3 t3)
  from four(12) D have r: "r = a * 262144 + b * 4096 + c * 64 + d" and n: "n = 4" by simp_all
  have rd: "r div 262144 = a" "(r div 4096) mod 64 = b" "(r div 64) mod 64 = c" "r mod 64 = d"
    unfolding r using join4[OF four(5,7,9), of a] by simp_all
  have lo: "0x10000 \<le> r" using four(10) r by (cases "a = 0") simp_all
  have hi: "r \<le> 0x10FFFF"
  proof (cases "a = 4")
    case True
    with four(11) have "b < 16" by simp
    with True four(7,9) r show ?thesis by simp
  next
    case False
    with four(3) have "a \<le> 3" by simp
    with four(5,7,9) r show ?thesis by simp
  qed
  have "EncodeRune r = [char_of (240 + a), char_of (128 + b), char_of (128 + c), char_of (128 + d)]"
    using EncodeRune_4[OF lo hi] by (simp add: rd)
  also have "\<dots> = [c0, c1, c2, c3]"
    using char_of_byte[OF four(2)] char_of_byte[OF four(4)] char_of_byte[OF four(6)]
      char_of_byte[OF four(8)] by simp
  finally show ?thesis by (simp add: n four(1))
qed

text \<open>A decoding step returns a Unicode scalar value and consumes between one byte and
  what is left.\<close>

lemma Decode_scalar:
  assumes D: "DecodeRuneInString (c0 # t) = (r, n)"
  shows "scalar r \<and> 1 \<le> n \<and> n \<le> length (c0 # t)"
proof (cases rule: decode_cases[where ch=c0 and rest=t])
  case ascii
  with D show ?thesis by (auto simp: scalar_def)
next
  case bad
  with D show ?thesis by (auto simp: scalar_def RuneError_def)
next
  case (two a e c1 t1)
  from two(7) D have r: "r = a * 64 + e" and n: "n = 2" by simp_all
  with two(1,4,6) show ?thesis by (simp add: scalar_def)
next
  case (three a b c c1 c2 t2)
  from three(10) D have r: "r = a * 4096 + b * 64 + c" and n: "n = 3" by simp_all
  have "scalar r"
  proof (cases "a = 13")
    case True
    with three(9) have "b < 32" by simp
    with True three(7) r show ?thesis by (simp add: scalar_def)
  next
    case False
    then have "a \<le> 12 \<or> 14 \<le> a" by linarith
    with three(3,5,7) r show ?thesis by (auto simp: scalar_def)
  qed
  with n three(1) show ?thesis by simp
next
  case (four a b c d c1 c2 c3 t3)
  from four(12) D have r: "r = a * 262144 + b * 4096 + c * 64 + d" and n: "n = 4" by simp_all
  have lo: "0x10000 \<le> r" using four(10) r by (cases "a = 0") simp_all
  have hi: "r \<le> 0x10FFFF"
  proof (cases "a = 4")
    case True
    with four(11) have "b < 16" by simp
    with True four(7,9) r show ?thesis by simp
  next
    case False
    with four(3) have "a \<le> 3" by simp
    with four(5,7,9) r show ?thesis by simp
  qed
  from lo hi have "scalar r" by (simp add: scalar_def)
  with n four(1) show ?thesis by simp
qed

lemmas dec_defs = DecodeRuneInString_def utf8_first_def acceptRanges_def Let_def RuneError_def

lemma dec_enc1:
  assumes "r \<le> 0x7F"
  shows "DecodeRuneInString (char_of r # t) = (r, 1)"
  using assms by (simp add: dec_defs)

lemma dec_enc2:
  assumes "0x80 \<le> r" "r \<le> 0x7FF"
  shows "DecodeRuneInString (char_of (0xC0 + r div 64) # char_of (0x80 + r mod 64) # t) = (r, 2)"
proof -
  define a b where "a = r div 64" and "b = r mod 64"
  have r: "r = a * 64 + b" by (simp add: a_def b_def)
  have b: "b < 64" by (simp add: b_def)
  have a1: "2 \<le> a" using assms(1) r b by linarith
  have a2: "a \<le> 31" using assms(2) r by linarith
  have m1: "(192 + a) mod 256 = 192 + a" using a2 by simp
  have m2: "(128 + b) mod 256 = 128 + b" using b by simp
  have m3: "(192 + a) mod 32 = a" using mod_shift[of a 32 6] a2 by simp
  have m4: "(128 + b) mod 64 = b" using mod_shift[of b 64 2] b by simp
  show ?thesis
    unfolding a_def[symmetric] b_def[symmetric]
    using a1 a2 b by (simp add: dec_defs m1 m2 m3 m4 r)
qed

lemma split3:
  fixes r :: nat
  defines "a \<equiv> r div 4096" and "b \<equiv> (r div 64) mod 64" and "c \<equiv> r mod 64"
  shows "r = a * 4096 + b * 64 + c" "b < 64" "c < 64"
proof -
  have "r div 4096 = (r div 64) div 64"
    using div_mult2_eq[of r 64 64] by simp
  then have "r div 64 = a * 64 + b" by (simp add: a_def b_def)
  moreover have "r = (r div 64) * 64 + c" by (simp add: c_def)
  ultimately show "r = a * 4096 + b * 64 + c" by simp
  show "b < 64" "c < 64" by (simp_all add: b_def c_def)
qed

lemma split4:
  fixes r :: nat
  defines "a \<equiv> r div 262144" and "b \<equiv> (r div 4096) mod 64" and "c \<equiv> (r div 64) mod 64"
    and "d \<equiv> r mod 64"
  shows "r = a * 262144 + b * 4096 + c * 64 + d" "b < 64" "c < 64" "d < 64"
proof -
  have "r div 262144 = (r div 4096) div 64"
    using div_mult2_eq[of r 4096 64] by simp
  then have "r div 4096 = a * 64 + b" by (simp add: a_def b_def)
  moreover have "r = (r div 4096) * 4096 + ((r div 64) mod 64) * 64 + r mod 64"
    using split3(1)[of r] by simp
  ultimately show "r = a * 262144 + b * 4096 + c * 64 + d" by (simp add: c_def d_def)
  show "b < 64" "c < 64" "d < 64" by (simp_all add: b_def c_def d_def)
qed

lemma dec_enc3:
  assumes "0x800 \<le> r" "r \<le> 0xFFFF" "\<not> (0xD800 \<le> r \<and> r \<le> 0xDFFF)"
  shows "DecodeRuneInString (char_of (0xE0 + r div 4096) # char_of (0x80 + (r div 64) mod 64) #
           char_of (0x80 + r mod 64) # t) = (r, 3)"
proof -
  define a b c where "a = r div 4096" and "b = (r div 64) mod 64" and "c = r mod 64"
  have r: "r = a * 4096 + b * 64 + c" and b: "b < 64" and c: "c < 64"
    unfolding a_def b_def c_def by (rule split3)+
  have a: "a \<le> 15" using assms(2) r by linarith
  have m1: "(224 + a) mod 256 = 224 + a" using a by simp
  have m2: "(128 + b) mod 256 = 128 + b" "(128 + c) mod 256 = 128 + c" using b c by simp_all
  have m3: "(224 + a) mod 16 = a" using mod_shift[of a 16 14] a by simp
  have m4: "(128 + b) mod 64 = b" "(128 + c) mod 64 = c"
    using mod_shift[of b 64 2] mod_shift[of c 64 2] b c by simp_all
  have lo: "a = 0 \<Longrightarrow> 32 \<le> b" using assms(1) r c by linarith
  have hi: "a = 13 \<Longrightarrow> b < 32" using assms(3) r b c by linarith
  consider (z) "a = 0" | (m) "1 \<le> a \<and> a \<le> 12" | (d) "a = 13" | (h) "a = 14 \<or> a = 15"
    using a by linarith
  then show ?thesis
  proof cases
    case z
    with lo b c show ?thesis
      unfolding a_def[symmetric] b_def[symmetric] c_def[symmetric]
      by (simp add: dec_defs m1 m2 m3 m4 r)
  next
    case m
    with b c show ?thesis
      unfolding a_def[symmetric] b_def[symmetric] c_def[symmetric]
      by (simp add: dec_defs m1 m2 m3 m4 r)
  next
    case d
    with hi b c show ?thesis
      unfolding a_def[symmetric] b_def[symmetric] c_def[symmetric]
      by (simp add: dec_defs m1 m2 m3 m4 r)
  next
    case h
    with b c show ?thesis
      unfolding a_def[symmetric] b_def[symmetric] c_def[symmetric]
      by (auto simp add: dec_defs m1 m2 m3 m4 r)
  qed
qed

lemma dec_enc4:
  assumes "0x10000 \<le> r" "r \<le> 0x10FFFF"
  shows "DecodeRuneInString (char_of (0xF0 + r div 262144) # char_of (0x80 + (r div 4096) mod 64) #
           char_of (0x80 + (r div 64) mod 64) # char_of (0x80 + r mod 64) # t) = (r, 4)"
proof -
  define a b c d where "a = r div 262144" and "b = (r div 4096) mod 64" and "c = (r div 64) mod 64"
    and "d = r mod 64"
  have r: "r = a * 262144 + b * 4096 + c * 64 + d" and b: "b < 64" and c: "c < 64" and d: "d < 64"
    unfolding a_def b_def c_def d_def by (rule split4)+
  have a: "a \<le> 4" using assms(2) r by linarith
  have m1: "(240 + a) mod 256 = 240 + a" using a by simp
  have m2: "(128 + b) mod 256 = 128 + b" "(128 + c) mod 256 = 128 + c" "(128 + d) mod 256 = 128 + d"
    using b c d by simp_all
  have m3: "(240 + a) mod 8 = a" using mod_shift[of a 8 30] a by simp
  have m4: "(128 + b) mod 64 = b" "(128 + c) mod 64 = c" "(128 + d) mod 64 = d"
    using mod_shift[of b 64 2] mod_shift[of c 64 2] mod_shift[of d 64 2] b c d by simp_all
  have lo: "a = 0 \<Longrightarrow> 16 \<le> b" using assms(1) r c d by linarith
  have hi: "a = 4 \<Longrightarrow> b < 16" using assms(2) r b c d by linarith
  consider (z) "a = 0" | (m) "1 \<le> a \<and> a \<le> 3" | (h) "a = 4"
    using a by linarith
  then show ?thesis
  proof cases
    case z
    with lo b c d show ?thesis
      unfolding a_def[symmetric] b_def[symmetric] c_def[symmetric] d_def[symmetric]
      by (simp add: dec_defs m1 m2 m3 m4 r)
  next
    case m
    with b c d show ?thesis
      unfolding a_def[symmetric] b_def[symmetric] c_def[symmetric] d_def[symmetric]
      by (simp add: dec_defs m1 m2 m3 m4 r)
  next
    case h
    with hi b c d show ?thesis
      unfolding a_def[symmetric] b_def[symmetric] c_def[symmetric] d_def[symmetric]
      by (simp add: dec_defs m1 m2 m3 m4 r)
  qed
qed

text \<open>Decoding what \<open>EncodeRune\<close> wrote for a scalar value reads that value back and
  consumes exactly the bytes written.\<close>

lemma Decode_Encode:
  assumes "scalar r"
  shows "DecodeRuneInString (EncodeRune r @ t) = (r, length (EncodeRune r))"
proof -
  consider (one) "r \<le> 0x7F" | (two) "0x80 \<le> r" "r \<le> 0x7FF"
    | (three) "0x800 \<le> r" "r \<le> 0xFFFF" "\<not> (0xD800 \<le> r \<and> r \<le> 0xDFFF)"
    | (four) "0x10000 \<le> r" "r \<le> 0x10FFFF"
    using assms unfolding scalar_def by linarith
  then show ?thesis
  proof cases
    case one
    then have "EncodeRune r = [char_of r]" by (simp add: enc_defs)
    with dec_enc1[OF one] show ?thesis by simp
  next
    case two
    with dec_enc2[OF two] EncodeRune_2[OF two] show ?thesis by simp
  next
    case three
    with dec_enc3[OF three] EncodeRune_3[OF three] show ?thesis by simp
  next
    case four
    with dec_enc4[OF four] EncodeRune_4[OF four] show ?thesis by simp
  qed
qed

lemma EncodeRune_nonempty: "EncodeRune r \<noteq> []"
  by (simp add: enc_defs)

lemma EncodeRune_RuneError: "length (EncodeRune RuneError) = 3"
  by (simp add: enc_defs)

lemma runes_Cons:
  assumes "DecodeRuneInString (c # cs) = (r, n)"
  shows "runes (c # cs) = r # runes (drop n (c # cs))"
proof -
  from Decode_scalar[OF assms] have "1 \<le> n" by simp
  then have "drop n (c # cs) = drop (n - 1) cs" by (cases n) simp_all
  with assms show ?thesis by simp
qed

lemma ValidString_Cons:
  assumes "DecodeRuneInString (c # cs) = (r, n)"
  shows "ValidString (c # cs) \<longleftrightarrow> \<not> (r = RuneError \<and> n = 1) \<and> ValidString (drop n (c # cs))"
proof -
  from Decode_scalar[OF assms] have "1 \<le> n" by simp
  then have "drop n (c # cs) = drop (n - 1) cs" by (cases n) simp_all
  with assms show ?thesis by simp
qed

lemma runes_Encode:
  assumes "scalar r"
  shows "runes (EncodeRune r @ t) = r # runes t"
proof -
  obtain c cs where e: "EncodeRune r @ t = c # cs"
    using EncodeRune_nonempty[of r] by (cases "EncodeRune r") auto
  from Decode_Encode[OF assms, of t] e
  have "DecodeRuneInString (c # cs) = (r, length (EncodeRune r))" by simp
  from runes_Cons[OF this] show ?thesis by (simp add: e[symmetric])
qed

lemma ValidString_Encode:
  assumes "scalar r"
  shows "ValidString (EncodeRune r @ t) \<longleftrightarrow> ValidString t"
proof -
  obtain c cs where e: "EncodeRune r @ t = c # cs"
    using EncodeRune_nonempty[of r] by (cases "EncodeRune r") auto
  from Decode_Encode[OF assms, of t] e
  have D: "DecodeRuneInString (c # cs) = (r, length (EncodeRune r))" by simp
  have "\<not> (r = RuneError \<and> length (EncodeRune r) = 1)"
    using EncodeRune_RuneError by auto
  with ValidString_Cons[OF D] show ?thesis by (simp add: e[symmetric])
qed

lemma runes_string_of_runes_append:
  "list_all scalar rs \<Longrightarrow> runes (string_of_runes rs @ t) = rs @ runes t"
  by (induction rs) (simp_all add: string_of_runes_def runes_Encode)

lemma runes_string_of_runes: "list_all scalar rs \<Longrightarrow> runes (string_of_runes rs) = rs"
  using runes_string_of_runes_append[of rs "[]"] by simp

lemma ValidString_string_of_runes: "list_all scalar rs \<Longrightarrow> ValidString (string_of_runes rs)"
  by (induction rs) (simp_all add: string_of_runes_def ValidString_Encode)

lemma runes_scalar: "list_all scalar (runes s)"
proof (induction s rule: runes.induct)
  case 1
  show ?case by simp
next
  case (2 c cs)
  obtain r n where D: "DecodeRuneInString (c # cs) = (r, n)" by (cases "DecodeRuneInString (c # cs)")
  from Decode_scalar[OF D] have "scalar r" by simp
  moreover from "2.IH"[OF refl D[symmetric]] have "list_all scalar (runes (drop (n - 1) cs))" .
  ultimately show ?case using D by simp
qed

lemma string_of_runes_runes: "ValidString s \<Longrightarrow> string_of_runes (runes s) = s"
proof (induction s rule: runes.induct)
  case 1
  show ?case by (simp add: string_of_runes_def)
next
  case (2 c cs)
  obtain r n where D: "DecodeRuneInString (c # cs) = (r, n)" by (cases "DecodeRuneInString (c # cs)")
  from Decode_scalar[OF D] have n: "1 \<le> n" by simp
  then have dr: "drop n (c # cs) = drop (n - 1) cs" by (cases n) simp_all
  from "2.prems" ValidString_Cons[OF D]
  have V: "\<not> (r = RuneError \<and> n = 1)" and V': "ValidString (drop (n - 1) cs)"
    by (simp_all add: dr)
  from "2.IH"[OF refl D[symmetric] V']
  have IH: "string_of_runes (runes (drop (n - 1) cs)) = drop (n - 1) cs" .
  have "string_of_runes (runes (c # cs)) = EncodeRune r @ string_of_runes (runes (drop (n - 1) cs))"
    using D by (simp add: string_of_runes_def)
  also have "\<dots> = take n (c # cs) @ drop n (c # cs)"
    using Encode_Decode[OF D V] IH dr by simp
  finally show ?case by simp
qed

lemma take_runes_scalar: "list_all scalar (take k (runes s))"
  using runes_scalar[of s] by (simp add: list_all_iff) (meson in_set_takeD)

text \<open>ASCII strings are valid, and coercing to valid UTF-8 changes no valid string.\<close>

lemma ValidString_ascii: "list_all (\<lambda>c. byte c < 0x80) s \<Longrightarrow> ValidString s"
proof (induction s)
  case Nil
  show ?case by simp
next
  case (Cons c cs)
  then have c: "byte c < 0x80" and cs: "ValidString cs" by simp_all
  from decode_ascii[OF c, of cs] c cs show ?case by (simp add: RuneError_def)
qed

lemma toValidUTF8_valid: "ValidString s \<Longrightarrow> toValidUTF8 s = s"
  by (simp add: toValidUTF8_def string_of_runes_runes)

lemma toValidUTF8_runes: "runes (toValidUTF8 s) = runes s"
  by (simp add: toValidUTF8_def runes_string_of_runes runes_scalar)

lemma ValidString_toValidUTF8: "ValidString (toValidUTF8 s)"
  by (simp add: toValidUTF8_def ValidString_string_of_runes runes_scalar)

lemma toValidUTF8_string_of_runes:
  "list_all scalar rs \<Longrightarrow> toValidUTF8 (string_of_runes rs) = string_of_runes rs"
  by (simp add: toValidUTF8_def runes_string_of_runes)

section \<open>Properties of the dispatcher\<close>

lemmas demo_simps = makeRequest_def http_NewRequest_def validMethod_def isTokenRune_def demoLib_def
  wireHeader_def wireGet_def SetBasicAuth_def Header_Set_def Header_Get_def MethodPost_def NewClient_def BaseURL_def

lemma uuid_NewString_nonempty: "uuid_NewString rnd \<noteq> []"
  by (simp add: uuid_NewString_def uuid_String_def)

lemma uuid_NewString_length: "length rnd = 16 \<Longrightarrow> length (uuid_NewString rnd) = 36"
  by (simp add: uuid_NewString_def uuid_String_def uuid_NewRandom_def hex_Encode_def
      length_concat comp_def sum_list_triv Let_def)


lemma http_NewRequest_Header: "http_NewRequest L m u b = Inr r \<Longrightarrow> Header r = Map.empty"
  by (auto simp: http_NewRequest_def Let_def split: if_splits sum.splits)

text \<open>
  The one request a dispatch sends, when \<open>http.NewRequest\<close> accepts the method and the
  URL, and the headers it carries.
\<close>

lemma makeRequest_wire:
  assumes "http_NewRequest L m (BaseURL @ endpoint) body = Inr r"
  shows "\<exists>req. fst (makeRequest L c m endpoint body params k) = [req] \<and>
    Header req = (if m = MethodPost
       then [''Content-Type'' \<mapsto> [''application/json''],
             ''Idempotence-Key'' \<mapsto> [if k = [] then uuid_NewString (rand_Read L) else k],
             ''Authorization'' \<mapsto> [basicAuth L (accountId c) (secretKey c)]]
       else [''Authorization'' \<mapsto> [basicAuth L (accountId c) (secretKey c)]])"
  using assms http_NewRequest_Header[OF assms]
  by (cases params) (simp_all add: makeRequest_def Let_def SetBasicAuth_def Header_Set_def)

lemma makeRequest_not_sent:
  assumes "http_NewRequest L m (BaseURL @ endpoint) body = Inl e"
  shows "makeRequest L c m endpoint body params k = ([], Inl e)"
  using assms by (simp add: makeRequest_def)

text \<open>
  C2, as the code has it. The claim says the dispatcher sets Content-Type and
  Idempotence-Key if and only if the method is state-mutating. The code tests
  \<open>method == http.MethodPost\<close>: every request handed to the transport carries the
  Idempotence-Key header exactly when the method is POST, carries Content-Type (then
  \<open>application/json\<close>) exactly when the method is POST, and carries no Idempotence-Key
  for any read-only method.
\<close>

theorem makeRequest_headers_iff_post:
  assumes "req \<in> set (fst (makeRequest L c m endpoint body params k))"
  shows "(Header req ''Idempotence-Key'' \<noteq> None \<longleftrightarrow> m = ''POST'') \<and>
         (Header req ''Content-Type'' = Some [''application/json''] \<longleftrightarrow> m = ''POST'') \<and>
         (Header req ''Content-Type'' \<noteq> None \<longleftrightarrow> m = ''POST'') \<and>
         (readOnly m \<longrightarrow> Header req ''Idempotence-Key'' = None)"
proof (cases "http_NewRequest L m (BaseURL @ endpoint) body")
  case (Inl e)
  from makeRequest_not_sent[OF Inl] assms show ?thesis by simp
next
  case (Inr r)
  from makeRequest_wire[OF Inr, of c params k] assms
  have H: "Header req = (if m = MethodPost
       then [''Content-Type'' \<mapsto> [''application/json''],
             ''Idempotence-Key'' \<mapsto> [if k = [] then uuid_NewString (rand_Read L) else k],
             ''Authorization'' \<mapsto> [basicAuth L (accountId c) (secretKey c)]]
       else [''Authorization'' \<mapsto> [basicAuth L (accountId c) (secretKey c)]])"
    by auto
  show ?thesis unfolding H by (auto simp: MethodPost_def readOnly_def)
qed

theorem makeRequest_headers_iff_post_witness:
  "wireHeader ''Idempotence-Key'' (fst (makeRequest demoLib (NewClient ''shop'' ''secret'') ''POST'' ''payments'' ''{}'' None ''k1'')) \<noteq> [None] \<and>
   wireHeader ''Content-Type'' (fst (makeRequest demoLib (NewClient ''shop'' ''secret'') ''POST'' ''payments'' ''{}'' None ''k1'')) = [Some [''application/json'']] \<and>
   readOnly ''GET'' \<and>
   wireHeader ''Idempotence-Key'' (fst (makeRequest demoLib (NewClient ''shop'' ''secret'') ''GET'' ''payments/1'' [] None ''k1'')) = [None] \<and>
   wireHeader ''Content-Type'' (fst (makeRequest demoLib (NewClient ''shop'' ''secret'') ''GET'' ''payments/1'' [] None ''k1'')) = [None]"
proof -
  let ?post = "makeRequest demoLib (NewClient ''shop'' ''secret'') ''POST'' ''payments'' ''{}'' None ''k1''"
  let ?get = "makeRequest demoLib (NewClient ''shop'' ''secret'') ''GET'' ''payments/1'' [] None ''k1''"
  obtain p where p: "fst ?post = [p]" by (simp add: demo_simps)
  obtain g where g: "fst ?get = [g]" by (simp add: demo_simps)
  have "p \<in> set (fst ?post)" "g \<in> set (fst ?get)" using p g by simp_all
  from makeRequest_headers_iff_post[OF this(1)] makeRequest_headers_iff_post[OF this(2)]
  show ?thesis using p g by (auto simp add: wireHeader_def readOnly_def)
qed

text \<open>
  C2, as stated, fails: DELETE is a state-mutating method, and a DELETE request goes to
  the transport with neither an Idempotence-Key nor a Content-Type header.
\<close>

theorem makeRequest_delete_no_idempotency_header:
  "stateMutating ''DELETE'' \<and>
   wireHeader ''Idempotence-Key'' (fst (makeRequest demoLib (NewClient ''shop'' ''secret'') ''DELETE'' ''webhooks/1'' [] None ''k1'')) = [None] \<and>
   wireHeader ''Content-Type'' (fst (makeRequest demoLib (NewClient ''shop'' ''secret'') ''DELETE'' ''webhooks/1'' [] None ''k1'')) = [None]"
  by (simp add: demo_simps stateMutating_def)




section \<open>Properties of the operation handler\<close>

text \<open>The test of the repository passes on the model, whatever the random source.\<close>

lemma TestIdempotencyKey_passes: "TestIdempotencyKey rnd = []"
  using uuid_NewString_nonempty[of rnd]
  by (auto simp: TestIdempotencyKey_def NewPaymentHandler_def SetIdempotencyKey_def Let_def)



section \<open>Properties of the payment accessors\<close>

lemmas demo_json = demoJson_def demoField_def demoFields_def demoBase_def demoSBP_def paymentOf_def

lemmas convert_eval = GetPaymentMethodSbp_def GetBasePaymentMethod_def convertPaymentMethod_def
  json_Marshal_def json_Unmarshal_def findField_def zeroValue_def setField_def toValidUTF8_valid
  ValidString_ascii paymentMethod_Type_def PaymentTypeSBP_def

lemma asMap_Some: "asMap v = Some m \<longleftrightarrow> v = Generic (JObj m)"
  by (auto simp: asMap_def split: any.splits jvalue.splits)

lemma GetConfirmationToken_not_map:
  "asMap (Confirmation p) = None \<Longrightarrow> GetConfirmationToken p = ([], Some ''confirmation is not a map'')"
  by (auto simp: GetConfirmationToken_def asMap_def split: any.splits jvalue.splits)

lemma GetConfirmationToken_map:
  assumes "asMap (Confirmation p) = Some m"
  shows "GetConfirmationToken p =
     (case map_of m ''confirmation_token'' of
        None \<Rightarrow> ([], Some ''confirmation_token not found in confirmation map'')
      | Some raw \<Rightarrow>
          if \<not> isString raw then ([], Some (''confirmation_token is not a string, got '' @ goTypeName raw))
          else if raw = JStr [] then ([], Some ''confirmation_token is empty'')
          else (case raw of JStr s \<Rightarrow> (s, None)))"
  using assms unfolding asMap_Some
  by (auto simp: GetConfirmationToken_def split: option.splits jvalue.splits)

lemma GetInvoiceId_not_map:
  "asMap (Metadata p) = None \<Longrightarrow>
   GetInvoiceIdFromMetadata p = ([], Some (''metadata is not a map[string]any, got '' @ fmt_T (Metadata p)))"
  by (auto simp: GetInvoiceIdFromMetadata_def asMap_def split: any.splits jvalue.splits)

lemma GetInvoiceId_map:
  assumes "asMap (Metadata p) = Some m"
  shows "GetInvoiceIdFromMetadata p =
     (case map_of m ''invoice_id'' of
        None \<Rightarrow> ([], Some ''invoice_id not found in metadata map'')
      | Some raw \<Rightarrow>
          if \<not> isString raw then ([], Some (''invoice_id is not a string, got '' @ goTypeName raw))
          else if raw = JStr [] then ([], Some ''invoice_id is empty'')
          else (case raw of JStr s \<Rightarrow> (s, None)))"
  using assms unfolding asMap_Some
  by (auto simp: GetInvoiceIdFromMetadata_def split: option.splits jvalue.splits)

text \<open>
  C5. Each scalar extraction, \<open>GetConfirmationToken\<close> on the confirmation field and
  \<open>GetInvoiceIdFromMetadata\<close> on the metadata field: a value that is not a generic
  mapping fails with the shape error; a mapping without the key fails with the
  field-missing error; a value under the key that is not a string fails with the
  type-mismatch error, which names the type found; the empty string fails with the
  field-empty error; any other string is returned with no error. The four error
  messages of each function differ from one another, whatever type name is reported.
\<close>

theorem scalar_extraction:
  "(asMap (Confirmation p) = None \<longrightarrow>
      GetConfirmationToken p = ([], Some ''confirmation is not a map'')) \<and>
   (\<forall>m. asMap (Confirmation p) = Some m \<longrightarrow>
      (map_of m ''confirmation_token'' = None \<longrightarrow>
         GetConfirmationToken p = ([], Some ''confirmation_token not found in confirmation map'')) \<and>
      (\<forall>raw. map_of m ''confirmation_token'' = Some raw \<and> \<not> isString raw \<longrightarrow>
         GetConfirmationToken p = ([], Some (''confirmation_token is not a string, got '' @ goTypeName raw))) \<and>
      (map_of m ''confirmation_token'' = Some (JStr []) \<longrightarrow>
         GetConfirmationToken p = ([], Some ''confirmation_token is empty'')) \<and>
      (\<forall>s. map_of m ''confirmation_token'' = Some (JStr s) \<and> s \<noteq> [] \<longrightarrow>
         GetConfirmationToken p = (s, None))) \<and>
   distinct [''confirmation is not a map'', ''confirmation_token not found in confirmation map'',
             ''confirmation_token is not a string, got '' @ tn, ''confirmation_token is empty''] \<and>
   (asMap (Metadata p) = None \<longrightarrow>
      GetInvoiceIdFromMetadata p = ([], Some (''metadata is not a map[string]any, got '' @ fmt_T (Metadata p)))) \<and>
   (\<forall>m. asMap (Metadata p) = Some m \<longrightarrow>
      (map_of m ''invoice_id'' = None \<longrightarrow>
         GetInvoiceIdFromMetadata p = ([], Some ''invoice_id not found in metadata map'')) \<and>
      (\<forall>raw. map_of m ''invoice_id'' = Some raw \<and> \<not> isString raw \<longrightarrow>
         GetInvoiceIdFromMetadata p = ([], Some (''invoice_id is not a string, got '' @ goTypeName raw))) \<and>
      (map_of m ''invoice_id'' = Some (JStr []) \<longrightarrow>
         GetInvoiceIdFromMetadata p = ([], Some ''invoice_id is empty'')) \<and>
      (\<forall>s. map_of m ''invoice_id'' = Some (JStr s) \<and> s \<noteq> [] \<longrightarrow>
         GetInvoiceIdFromMetadata p = (s, None))) \<and>
   distinct [''metadata is not a map[string]any, got '' @ tm, ''invoice_id not found in metadata map'',
             ''invoice_id is not a string, got '' @ tn, ''invoice_id is empty'']"
proof -
  have c1: "asMap (Confirmation p) = None \<longrightarrow>
      GetConfirmationToken p = ([], Some ''confirmation is not a map'')"
    using GetConfirmationToken_not_map by blast
  have c2: "\<forall>m. asMap (Confirmation p) = Some m \<longrightarrow>
      (map_of m ''confirmation_token'' = None \<longrightarrow>
         GetConfirmationToken p = ([], Some ''confirmation_token not found in confirmation map'')) \<and>
      (\<forall>raw. map_of m ''confirmation_token'' = Some raw \<and> \<not> isString raw \<longrightarrow>
         GetConfirmationToken p = ([], Some (''confirmation_token is not a string, got '' @ goTypeName raw))) \<and>
      (map_of m ''confirmation_token'' = Some (JStr []) \<longrightarrow>
         GetConfirmationToken p = ([], Some ''confirmation_token is empty'')) \<and>
      (\<forall>s. map_of m ''confirmation_token'' = Some (JStr s) \<and> s \<noteq> [] \<longrightarrow>
         GetConfirmationToken p = (s, None))"
    by (auto simp: GetConfirmationToken_map)
  have c3: "distinct [''confirmation is not a map'', ''confirmation_token not found in confirmation map'',
             ''confirmation_token is not a string, got '' @ tn, ''confirmation_token is empty'']"
    by simp
  have m1: "asMap (Metadata p) = None \<longrightarrow>
      GetInvoiceIdFromMetadata p = ([], Some (''metadata is not a map[string]any, got '' @ fmt_T (Metadata p)))"
    using GetInvoiceId_not_map by blast
  have m2: "\<forall>m. asMap (Metadata p) = Some m \<longrightarrow>
      (map_of m ''invoice_id'' = None \<longrightarrow>
         GetInvoiceIdFromMetadata p = ([], Some ''invoice_id not found in metadata map'')) \<and>
      (\<forall>raw. map_of m ''invoice_id'' = Some raw \<and> \<not> isString raw \<longrightarrow>
         GetInvoiceIdFromMetadata p = ([], Some (''invoice_id is not a string, got '' @ goTypeName raw))) \<and>
      (map_of m ''invoice_id'' = Some (JStr []) \<longrightarrow>
         GetInvoiceIdFromMetadata p = ([], Some ''invoice_id is empty'')) \<and>
      (\<forall>s. map_of m ''invoice_id'' = Some (JStr s) \<and> s \<noteq> [] \<longrightarrow>
         GetInvoiceIdFromMetadata p = (s, None))"
    by (auto simp: GetInvoiceId_map)
  have m3: "distinct [''metadata is not a map[string]any, got '' @ tm, ''invoice_id not found in metadata map'',
             ''invoice_id is not a string, got '' @ tn, ''invoice_id is empty'']"
    by simp
  from c1 c2 c3 m1 m2 m3 show ?thesis by blast
qed

theorem scalar_extraction_witness:
  "GetConfirmationToken ((paymentOf (Generic JNull))
      \<lparr>Confirmation := Generic (JObj [(''confirmation_token'', JStr [])])\<rparr>) =
     ([], Some ''confirmation_token is empty'') \<and>
   GetConfirmationToken ((paymentOf (Generic JNull))\<lparr>Confirmation := Generic (JObj [])\<rparr>) =
     ([], Some ''confirmation_token not found in confirmation map'') \<and>
   GetConfirmationToken ((paymentOf (Generic JNull))
      \<lparr>Confirmation := Generic (JObj [(''confirmation_token'', JNum 42)])\<rparr>) =
     ([], Some ''confirmation_token is not a string, got float64'') \<and>
   GetConfirmationToken ((paymentOf (Generic JNull))
      \<lparr>Confirmation := Generic (JObj [(''confirmation_token'', JStr ''tok_1'')])\<rparr>) =
     (''tok_1'', None) \<and>
   GetConfirmationToken ((paymentOf (Generic JNull))\<lparr>Confirmation := Generic (JStr ''tok_1'')\<rparr>) =
     ([], Some ''confirmation is not a map'') \<and>
   GetInvoiceIdFromMetadata ((paymentOf (Generic JNull))
      \<lparr>Metadata := Generic (JObj [(''invoice_id'', JStr ''inv-7'')])\<rparr>) =
     (''inv-7'', None) \<and>
   GetInvoiceIdFromMetadata (paymentOf (Generic JNull)) =
     ([], Some ''metadata is not a map[string]any, got <nil>'')"
proof -
  let ?p = "paymentOf (Generic JNull)"
  have c: "\<And>v. Confirmation (?p\<lparr>Confirmation := v\<rparr>) = v" by simp
  have m: "\<And>v. Metadata (?p\<lparr>Metadata := v\<rparr>) = v" by simp
  have e1: "GetConfirmationToken (?p\<lparr>Confirmation := Generic (JObj [(''confirmation_token'', JStr [])])\<rparr>) =
     ([], Some ''confirmation_token is empty'')"
    using scalar_extraction[of "?p\<lparr>Confirmation := Generic (JObj [(''confirmation_token'', JStr [])])\<rparr>"]
    unfolding c by (simp add: asMap_def)
  have e2: "GetConfirmationToken (?p\<lparr>Confirmation := Generic (JObj [])\<rparr>) =
     ([], Some ''confirmation_token not found in confirmation map'')"
    using scalar_extraction[of "?p\<lparr>Confirmation := Generic (JObj [])\<rparr>"]
    unfolding c by (simp add: asMap_def)
  have e3: "GetConfirmationToken (?p\<lparr>Confirmation := Generic (JObj [(''confirmation_token'', JNum 42)])\<rparr>) =
     ([], Some ''confirmation_token is not a string, got float64'')"
    using scalar_extraction[of "?p\<lparr>Confirmation := Generic (JObj [(''confirmation_token'', JNum 42)])\<rparr>"]
    unfolding c by (simp add: asMap_def)
  have e4: "GetConfirmationToken (?p\<lparr>Confirmation := Generic (JObj [(''confirmation_token'', JStr ''tok_1'')])\<rparr>) =
     (''tok_1'', None)"
    using scalar_extraction[of "?p\<lparr>Confirmation := Generic (JObj [(''confirmation_token'', JStr ''tok_1'')])\<rparr>"]
    unfolding c by (simp add: asMap_def)
  have e5: "GetConfirmationToken (?p\<lparr>Confirmation := Generic (JStr ''tok_1'')\<rparr>) =
     ([], Some ''confirmation is not a map'')"
    using scalar_extraction[of "?p\<lparr>Confirmation := Generic (JStr ''tok_1'')\<rparr>"]
    unfolding c by (simp add: asMap_def)
  have e6: "GetInvoiceIdFromMetadata (?p\<lparr>Metadata := Generic (JObj [(''invoice_id'', JStr ''inv-7'')])\<rparr>) =
     (''inv-7'', None)"
    using scalar_extraction[of "?p\<lparr>Metadata := Generic (JObj [(''invoice_id'', JStr ''inv-7'')])\<rparr>"]
    unfolding m by (simp add: asMap_def)
  have e7: "GetInvoiceIdFromMetadata ?p = ([], Some ''metadata is not a map[string]any, got <nil>'')"
    using scalar_extraction[of ?p] by (simp add: asMap_def paymentOf_def)
  from e1 e2 e3 e4 e5 e6 e7 show ?thesis by simp
qed

text \<open>
  C7. \<open>convertPaymentMethod\<close> does what the ordered strategy of the specification does
  (exact type match, then pointer-dereference match, then decode from the generic
  mapping, else fail): the cases exclude one another, so the order in which the type
  switch lists them is not observable. For every value that is none of the three shapes
  it returns the zero value and the unsupported-type error, which reports the type of
  the value as \<open>%T\<close> prints it.
\<close>

theorem convertPaymentMethod_ordered:
  "convertPaymentMethod J T pm = resolveOrdered J T pm \<and>
   (exactMatch T pm = None \<and> pointerMatch T pm = None \<and> asMap pm = None \<longrightarrow>
      convertPaymentMethod J T pm =
        Returns (zeroValue T) (Some (''unsupported payment method type: '' @ fmt_T pm)))"
  by (auto simp: convertPaymentMethod_def resolveOrdered_def exactMatch_def pointerMatch_def asMap_def
      decodeFromMapping_def Let_def split: any.splits jvalue.splits option.splits sum.splits)

theorem convertPaymentMethod_ordered_witness:
  "exactMatch demoSBP (Struct ''yoopayment.PaymentMethodWithCard'' []) = None \<and>
   pointerMatch demoSBP (Struct ''yoopayment.PaymentMethodWithCard'' []) = None \<and>
   asMap (Struct ''yoopayment.PaymentMethodWithCard'' []) = None \<and>
   convertPaymentMethod demoJson demoSBP (Struct ''yoopayment.PaymentMethodWithCard'' []) =
     Returns [(''type'', JStr []), (''id'', JStr []), (''saved'', JBool False), (''title'', JStr [])]
       (Some ''unsupported payment method type: yoopayment.PaymentMethodWithCard'') \<and>
   convertPaymentMethod demoJson demoSBP (Generic (JNum 7)) =
     Returns [(''type'', JStr []), (''id'', JStr []), (''saved'', JBool False), (''title'', JStr [])]
       (Some ''unsupported payment method type: float64'') \<and>
   resolveOrdered demoJson demoSBP (Struct ''yoopayment.SBP'' [(''type'', JStr ''sbp'')]) =
     Returns [(''type'', JStr ''sbp'')] None"
  using convertPaymentMethod_ordered[of demoJson demoSBP "Struct ''yoopayment.PaymentMethodWithCard'' []"]
    convertPaymentMethod_ordered[of demoJson demoSBP "Generic (JNum 7)"]
    convertPaymentMethod_ordered[of demoJson demoSBP "Struct ''yoopayment.SBP'' [(''type'', JStr ''sbp'')]"]
  by (simp add: exactMatch_def pointerMatch_def asMap_def demo_json zeroValue_def resolveOrdered_def)

text \<open>
  C10. For every variant type \<open>T\<close>, \<open>convertPaymentMethod\<close> called with a nil pointer of
  type \<open>*T\<close> dereferences it and panics, and so does each accessor
  (\<open>GetBasePaymentMethod\<close>, \<open>GetPaymentMethodWithCard\<close>, \<open>GetPaymentMethodSbp\<close>) on a
  payment whose payment method is such a pointer: no error value is returned.
\<close>

theorem nil_pointer_panics:
  "convertPaymentMethod J T (Pointer (typeName T) None) = Panics nilDereference \<and>
   GetBasePaymentMethod J T (p\<lparr>PaymentMethod := Pointer (typeName T) None\<rparr>) = Panics nilDereference \<and>
   GetPaymentMethodWithCard J T (p\<lparr>PaymentMethod := Pointer (typeName T) None\<rparr>) = Panics nilDereference \<and>
   GetPaymentMethodSbp J T (p\<lparr>PaymentMethod := Pointer (typeName T) None\<rparr>) = ([], Panics nilDereference)"
  by (simp add: convertPaymentMethod_def GetBasePaymentMethod_def GetPaymentMethodWithCard_def
      GetPaymentMethodSbp_def)

theorem nil_pointer_panics_witness:
  "convertPaymentMethod demoJson demoSBP (Pointer ''yoopayment.SBP'' None) =
     Panics ''runtime error: invalid memory address or nil pointer dereference'' \<and>
   GetPaymentMethodSbp demoJson demoSBP (paymentOf (Pointer ''yoopayment.SBP'' None)) =
     ([], Panics ''runtime error: invalid memory address or nil pointer dereference'')"
  using nil_pointer_panics[of demoJson demoSBP "paymentOf (Generic JNull)"]
  by (simp add: demoSBP_def paymentOf_def nilDereference_def)

lemma fits_encode: "fits k v \<Longrightarrow> json_encode v = v"
  by (cases "(k, v)" rule: fits.cases) (simp_all add: toValidUTF8_valid)

lemma fits_assign: "fits (kind f) v \<Longrightarrow> assign f v = Inr (Some v)"
  by (cases "(kind f, v)" rule: fits.cases) simp_all

lemma shapedAs_alt: "shapedAs T m \<longleftrightarrow> distinct (map fst m) \<and> (\<forall>e \<in> set m. entryOk (structFields T) e)"
  by (simp add: shapedAs_def entryOk_def list_all_iff case_prod_beta)

lemma entryOk_encode:
  assumes "entryOk fs e"
  shows "toValidUTF8 (fst e) = fst e" "json_encode (snd e) = snd e"
proof -
  from assms obtain f :: Field where "fits (kind f) (snd e)" and "ValidString (fst e)"
    by (auto simp: entryOk_def split: option.splits)
  then show "toValidUTF8 (fst e) = fst e" "json_encode (snd e) = snd e"
    by (simp_all add: toValidUTF8_valid fits_encode)
qed

lemma json_Marshal_shaped:
  assumes "shapedAs T m"
  shows "json_Marshal m = Inr (JObj (sort_key fst m))"
proof -
  have "\<forall>e \<in> set (sort_key fst m). entryOk (structFields T) e"
    using assms by (simp add: shapedAs_alt)
  then have "\<And>e. e \<in> set (sort_key fst m) \<Longrightarrow> (case e of (k, v) \<Rightarrow> (toValidUTF8 k, json_encode v)) = e"
    using entryOk_encode by (fastforce simp add: case_prod_beta prod_eq_iff)
  then have "map (\<lambda>(k, v). (toValidUTF8 k, json_encode v)) (sort_key fst m) = sort_key fst m"
    by (rule map_idI)
  then show ?thesis by (simp add: json_Marshal_def)
qed

lemma setField_Nil: "setField n v [] = []"
  by (simp add: setField_def)

lemma setField_Cons:
  "setField n v (e # s) = (if fst e = n then (fst e, v) else e) # setField n v s"
  by (simp add: setField_def case_prod_beta)

lemma setField_keys: "map fst (setField n v s) = map fst s"
  by (induction s) (simp_all add: setField_Nil setField_Cons)

lemma map_of_setField:
  "map_of (setField n v s) k = (if k = n \<and> n \<in> fst ` set s then Some v else map_of s k)"
proof (induction s)
  case Nil
  show ?case by (simp add: setField_Nil)
next
  case (Cons e s)
  obtain a b where e: "e = (a, b)" by (cases e)
  show ?case using Cons.IH by (force simp add: setField_Cons e image_iff)
qed

lemma decodeObject_shaped:
  assumes "distinct (map fst ms)" "\<forall>e \<in> set ms. entryOk fs e" "jsonName ` set fs \<subseteq> fst ` set s"
  shows "\<exists>s'. decodeObject J fs ms s = Inr s' \<and> map fst s' = map fst s \<and>
           (\<forall>k. map_of s' k = (case map_of ms k of Some v \<Rightarrow> Some v | None \<Rightarrow> map_of s k))"
  using assms
proof (induction ms arbitrary: s)
  case Nil
  then show ?case by simp
next
  case (Cons e ms)
  obtain key v where e: "e = (key, v)" by (cases e)
  from Cons.prems(2) e obtain f :: Field where f: "find (\<lambda>f. jsonName f = key) fs = Some f" and fv: "fits (kind f) v"
    by (auto simp: entryOk_def split: option.splits)
  from f have fn: "jsonName f = key" and fin: "f \<in> set fs"
    by (auto simp: find_Some_iff)
  have ff: "findField J fs key = Some f" by (simp add: findField_def f)
  have key_in: "key \<in> fst ` set s" using fn fin Cons.prems(3) by auto
  let ?s1 = "setField key v s"
  have keys1: "map fst ?s1 = map fst s" by (rule setField_keys)
  then have "fst ` set ?s1 = fst ` set s" by (metis list.set_map)
  with Cons.prems(3) have sub1: "jsonName ` set fs \<subseteq> fst ` set ?s1" by simp
  from Cons.prems(1,2) have d: "distinct (map fst ms)" and ok: "\<forall>e \<in> set ms. entryOk fs e"
    and notin: "key \<notin> fst ` set ms"
    by (auto simp: e)
  from Cons.IH[OF d ok sub1] obtain s' where
    s': "decodeObject J fs ms ?s1 = Inr s'" "map fst s' = map fst ?s1"
        "\<forall>k. map_of s' k = (case map_of ms k of Some v \<Rightarrow> Some v | None \<Rightarrow> map_of ?s1 k)"
    by blast
  have step: "decodeObject J fs (e # ms) s = Inr s'"
    by (simp add: e ff fits_assign[OF fv] fn s'(1))
  have none: "map_of ms key = None" using notin by (simp add: map_of_eq_None_iff)
  have "\<forall>k. map_of s' k = (case map_of (e # ms) k of Some v \<Rightarrow> Some v | None \<Rightarrow> map_of s k)"
    using s'(3) none key_in by (auto simp: e map_of_setField split: option.splits)
  with step s'(2) keys1 show ?case by auto
qed

lemma zeroValue_keys: "map fst (zeroValue T) = map jsonName (structFields T)"
  by (simp add: zeroValue_def comp_def)

lemma map_of_sort_key:
  assumes "distinct (map fst m)"
  shows "map_of (sort_key fst m) = map_of m"
proof -
  have "distinct (map fst (sort_key fst m))"
    using assms by (metis distinct_map distinct_sort set_sort inj_on_def)
  then show ?thesis
    using assms by (simp add: map_of_inject_set)
qed

text \<open>The decode-from-mapping step on a mapping shaped as the target type.\<close>

lemma convert_shaped:
  assumes "shapedAs T m"
  shows "\<exists>s. convertPaymentMethod J T (Generic (JObj m)) = Returns s None \<and>
           map fst s = map jsonName (structFields T) \<and>
           (\<forall>k. map_of s k = (case map_of m k of Some v \<Rightarrow> Some v | None \<Rightarrow> map_of (zeroValue T) k))"
proof -
  from assms have d: "distinct (map fst m)" and ok: "\<forall>e \<in> set m. entryOk (structFields T) e"
    by (simp_all add: shapedAs_alt)
  have d': "distinct (map fst (sort_key fst m))"
    using d by (metis distinct_map distinct_sort set_sort inj_on_def)
  have ok': "\<forall>e \<in> set (sort_key fst m). entryOk (structFields T) e" using ok by simp
  have sub: "jsonName ` set (structFields T) \<subseteq> fst ` set (zeroValue T)"
    by (metis zeroValue_keys list.set_map order_refl)
  from decodeObject_shaped[OF d' ok' sub, of J] obtain s where
    s: "decodeObject J (structFields T) (sort_key fst m) (zeroValue T) = Inr s"
       "map fst s = map fst (zeroValue T)"
       "\<forall>k. map_of s k = (case map_of (sort_key fst m) k of Some v \<Rightarrow> Some v | None \<Rightarrow> map_of (zeroValue T) k)"
    by blast
  have "convertPaymentMethod J T (Generic (JObj m)) = Returns s None"
    by (simp add: convertPaymentMethod_def json_Marshal_shaped[OF assms] json_Unmarshal_def s(1))
  with s(2,3) show ?thesis
    by (auto simp: zeroValue_keys map_of_sort_key[OF d])
qed

lemma zeroValue_Type:
  "(case map_of (zeroValue T) ''type'' of Some (JStr t) \<Rightarrow> t | _ \<Rightarrow> []) = []"
proof -
  have "\<And>fs :: Field list. (case map_of (map (\<lambda>f. (jsonName f, zeroOf (kind f))) fs) ''type'' of
            Some (JStr t) \<Rightarrow> t | _ \<Rightarrow> []) = []"
  proof -
    fix fs :: "Field list"
    show "(case map_of (map (\<lambda>f. (jsonName f, zeroOf (kind f))) fs) ''type'' of
            Some (JStr t) \<Rightarrow> t | _ \<Rightarrow> []) = []"
    proof (induction fs)
      case Nil
      show ?case by simp
    next
      case (Cons f fs)
      then show ?case by (cases "kind f") simp_all
    qed
  qed
  then show ?thesis by (simp add: zeroValue_def)
qed

text \<open>
  C8. For every generic mapping shaped as the base payment method, \<open>GetBasePaymentMethod\<close>
  succeeds: it returns a struct with the fields of the type and no error, every field
  the mapping gives holds the value the mapping gives, unchanged by the re-encode and
  decode, and every other field holds its zero value.
\<close>

theorem GetBasePaymentMethod_roundtrip:
  assumes "PaymentMethod p = Generic (JObj m)" and "shapedAs T m"
  shows "\<exists>s. GetBasePaymentMethod J T p = Returns s None \<and>
           map fst s = map jsonName (structFields T) \<and>
           (\<forall>k v. map_of m k = Some v \<longrightarrow> map_of s k = Some v) \<and>
           (\<forall>k. map_of m k = None \<longrightarrow> map_of s k = map_of (zeroValue T) k)"
proof -
  from convert_shaped[OF assms(2), of J] obtain s where
    s: "convertPaymentMethod J T (Generic (JObj m)) = Returns s None"
       "map fst s = map jsonName (structFields T)"
       "\<forall>k. map_of s k = (case map_of m k of Some v \<Rightarrow> Some v | None \<Rightarrow> map_of (zeroValue T) k)"
    by blast
  have "GetBasePaymentMethod J T p = Returns s None"
    by (simp add: GetBasePaymentMethod_def assms(1) s(1))
  moreover have "\<forall>k v. map_of m k = Some v \<longrightarrow> map_of s k = Some v"
    using s(3) by simp
  moreover have "\<forall>k. map_of m k = None \<longrightarrow> map_of s k = map_of (zeroValue T) k"
    using s(3) by simp
  ultimately show ?thesis using s(2) by blast
qed

theorem GetBasePaymentMethod_roundtrip_witness:
  "shapedAs demoBase [(''type'', JStr ''bank_card''), (''title'', JStr ''Visa''), (''saved'', JBool True)] \<and>
   (\<exists>s. GetBasePaymentMethod demoJson demoBase
           (paymentOf (Generic (JObj [(''type'', JStr ''bank_card''), (''title'', JStr ''Visa''), (''saved'', JBool True)]))) =
           Returns s None \<and>
         map fst s = [''type'', ''id'', ''saved'', ''title''] \<and>
         map_of s ''type'' = Some (JStr ''bank_card'') \<and>
         map_of s ''title'' = Some (JStr ''Visa'') \<and>
         map_of s ''saved'' = Some (JBool True) \<and>
         map_of s ''id'' = Some (JStr []))"
proof -
  let ?m = "[(''type'', JStr ''bank_card''), (''title'', JStr ''Visa''), (''saved'', JBool True)]"
  have sh: "shapedAs demoBase ?m"
    by (simp add: shapedAs_def demo_json ValidString_ascii del: ValidString.simps)
  have pm: "PaymentMethod (paymentOf (Generic (JObj ?m))) = Generic (JObj ?m)"
    by (simp add: paymentOf_def)
  from GetBasePaymentMethod_roundtrip[OF pm sh, of demoJson] obtain s where
    S: "GetBasePaymentMethod demoJson demoBase (paymentOf (Generic (JObj ?m))) = Returns s None \<and>
       map fst s = map jsonName (structFields demoBase) \<and>
       (\<forall>k v. map_of ?m k = Some v \<longrightarrow> map_of s k = Some v) \<and>
       (\<forall>k. map_of ?m k = None \<longrightarrow> map_of s k = map_of (zeroValue demoBase) k)" ..
  note s = S[THEN conjunct1] S[THEN conjunct2, THEN conjunct1]
    S[THEN conjunct2, THEN conjunct2, THEN conjunct1] S[THEN conjunct2, THEN conjunct2, THEN conjunct2]
  have f1: "map fst s = [''type'', ''id'', ''saved'', ''title'']" using s(2) by (simp add: demo_json)
  have f2: "map_of s ''type'' = Some (JStr ''bank_card'')"
    using s(3)[rule_format, of "''type''" "JStr ''bank_card''"] by simp
  have f3: "map_of s ''title'' = Some (JStr ''Visa'')"
    using s(3)[rule_format, of "''title''" "JStr ''Visa''"] by simp
  have f4: "map_of s ''saved'' = Some (JBool True)"
    using s(3)[rule_format, of "''saved''" "JBool True"] by simp
  have f5: "map_of s ''id'' = Some (JStr [])"
    using s(4)[rule_format, of "''id''"] by (simp add: zeroValue_def demo_json)
  show ?thesis
    by (intro conjI exI[of _ s]) (rule sh s(1) f1 f2 f3 f4 f5)+
qed

text \<open>
  C4. For every generic mapping shaped as the SBP variant whose \<open>type\<close> entry is not the
  string \<open>sbp\<close>, \<open>GetPaymentMethodSbp\<close> fails with the discriminator-mismatch error,
  which reports the discriminator found (the empty string when the mapping has no
  \<open>type\<close>); and whatever the payment, it never returns without an error a value whose
  discriminator is not \<open>sbp\<close>.
\<close>

theorem GetPaymentMethodSbp_mismatch:
  assumes "PaymentMethod p = Generic (JObj m)" and "shapedAs SBP m"
    and "map_of m ''type'' \<noteq> Some (JStr ''sbp'')"
  shows "(\<exists>sbp. GetPaymentMethodSbp J SBP p =
            ([''ALE '' @ discriminator m],
             Returns sbp (Some (''payment method is not SBP, got '' @ discriminator m))) \<and>
          paymentMethod_Type sbp = discriminator m) \<and>
         discriminator m \<noteq> ''sbp'' \<and>
         (\<forall>out sbp. GetPaymentMethodSbp J SBP q = (out, Returns sbp None) \<longrightarrow>
            paymentMethod_Type sbp = ''sbp'')"
proof -
  from convert_shaped[OF assms(2), of J] obtain s where
    s: "convertPaymentMethod J SBP (Generic (JObj m)) = Returns s None"
       "\<forall>k. map_of s k = (case map_of m k of Some v \<Rightarrow> Some v | None \<Rightarrow> map_of (zeroValue SBP) k)"
    by blast
  have ty: "paymentMethod_Type s = discriminator m"
    using s(2)[rule_format, of "''type''"] zeroValue_Type[of SBP]
    by (simp add: paymentMethod_Type_def discriminator_def split: option.splits)
  have ne: "discriminator m \<noteq> ''sbp''"
    using assms(3) by (auto simp: discriminator_def split: option.splits jvalue.splits)
  have "GetPaymentMethodSbp J SBP p =
      ([''ALE '' @ discriminator m], Returns s (Some (''payment method is not SBP, got '' @ discriminator m)))"
    using ne by (simp add: GetPaymentMethodSbp_def assms(1) s(1) ty PaymentTypeSBP_def)
  moreover have "\<forall>out sbp. GetPaymentMethodSbp J SBP q = (out, Returns sbp None) \<longrightarrow>
            paymentMethod_Type sbp = ''sbp''"
    by (auto simp: GetPaymentMethodSbp_def PaymentTypeSBP_def Let_def
        split: outcome.splits option.splits if_splits)
  ultimately show ?thesis using ty ne by blast
qed

theorem GetPaymentMethodSbp_mismatch_witness:
  "shapedAs demoSBP [(''type'', JStr ''bank_card''), (''id'', JStr ''pm-1'')] \<and>
   discriminator [(''type'', JStr ''bank_card''), (''id'', JStr ''pm-1'')] = ''bank_card'' \<and>
   (\<exists>sbp. GetPaymentMethodSbp demoJson demoSBP
             (paymentOf (Generic (JObj [(''type'', JStr ''bank_card''), (''id'', JStr ''pm-1'')]))) =
             ([''ALE bank_card''], Returns sbp (Some ''payment method is not SBP, got bank_card'')) \<and>
           paymentMethod_Type sbp = ''bank_card'')"
proof -
  let ?m = "[(''type'', JStr ''bank_card''), (''id'', JStr ''pm-1'')]"
  have sh: "shapedAs demoSBP ?m"
    by (simp add: shapedAs_def demo_json ValidString_ascii del: ValidString.simps)
  have pm: "PaymentMethod (paymentOf (Generic (JObj ?m))) = Generic (JObj ?m)"
    by (simp add: paymentOf_def)
  have ne: "map_of ?m ''type'' \<noteq> Some (JStr ''sbp'')" by simp
  have d: "discriminator ?m = ''bank_card''" by (simp add: discriminator_def)
  from GetPaymentMethodSbp_mismatch[OF pm sh ne, of demoJson] sh d show ?thesis by simp
qed

text \<open>
  C9 says that resolving the SBP variant writes nothing to the console. The code writes
  the line \<open>ALE <type>\<close> whenever the conversion succeeds, before it compares the
  discriminator: here on a mapping whose type is \<open>sbp\<close>, which resolves without error.
\<close>

theorem GetPaymentMethodSbp_prints:
  "GetPaymentMethodSbp demoJson demoSBP (paymentOf (Generic (JObj [(''type'', JStr ''sbp'')]))) =
     ([''ALE sbp''],
      Returns [(''type'', JStr ''sbp''), (''id'', JStr []), (''saved'', JBool False), (''title'', JStr [])] None)"
  by (simp add: convert_eval demo_json del: ValidString.simps)

section \<open>Properties of the item serialization\<close>

lemma Item_MarshalJSON_doc:
  assumes "Item_MarshalJSON enc u = Inr doc"
  shows "descriptionOf doc =
     Some (if RuneCountInString (Description u) > 128
           then string_of_runes (take 128 (runes (Description u)))
           else toValidUTF8 (Description u))"
  using assms
  by (auto simp: Item_MarshalJSON_def json_Marshal_Alias_def MAX_DESCRIPTION_LENGTH_def Let_def
      descriptionOf_def toValidUTF8_string_of_runes take_runes_scalar
      split: sum.splits option.splits if_splits)

text \<open>
  C6. The description an item is serialized with holds the first 128 runes of the
  item's description and no more: it has exactly 128 runes when the description has more
  than 128, whatever their width in bytes; it is valid UTF-8, so no multi-byte sequence
  is cut; and a valid description of at most 128 runes is written unchanged.
\<close>

theorem Item_MarshalJSON_truncates:
  assumes "Item_MarshalJSON enc u = Inr doc"
  shows "\<exists>d. descriptionOf doc = Some d \<and>
           runes d = take 128 (runes (Description u)) \<and>
           ValidString d \<and>
           RuneCountInString d \<le> 128 \<and>
           (RuneCountInString (Description u) > 128 \<longrightarrow> RuneCountInString d = 128) \<and>
           (RuneCountInString (Description u) \<le> 128 \<and> ValidString (Description u) \<longrightarrow> d = Description u)"
proof (cases "RuneCountInString (Description u) > 128")
  case True
  let ?d = "string_of_runes (take 128 (runes (Description u)))"
  from Item_MarshalJSON_doc[OF assms] True have d: "descriptionOf doc = Some ?d" by simp
  have r: "runes ?d = take 128 (runes (Description u))"
    by (simp add: runes_string_of_runes take_runes_scalar)
  have v: "ValidString ?d" by (simp add: ValidString_string_of_runes take_runes_scalar)
  have c: "RuneCountInString ?d = 128"
    using True by (simp add: RuneCountInString_def r)
  from d r v c True show ?thesis by simp
next
  case False
  let ?d = "toValidUTF8 (Description u)"
  from Item_MarshalJSON_doc[OF assms] False have d: "descriptionOf doc = Some ?d" by simp
  have r: "runes ?d = take 128 (runes (Description u))"
    using False by (simp add: toValidUTF8_runes RuneCountInString_def)
  have v: "ValidString ?d" by (rule ValidString_toValidUTF8)
  have c: "RuneCountInString ?d \<le> 128"
    using False by (simp add: RuneCountInString_def toValidUTF8_runes)
  have i: "ValidString (Description u) \<Longrightarrow> ?d = Description u"
    by (simp add: toValidUTF8_def string_of_runes_runes)
  from d r v c i False show ?thesis by simp
qed

lemma Item_MarshalJSON_returns:
  assumes "Amount u = None"
  shows "\<exists>doc. Item_MarshalJSON enc u = Inr doc"
  by (cases "RuneCountInString (Description u) > MAX_DESCRIPTION_LENGTH")
     (simp_all add: Item_MarshalJSON_def json_Marshal_Alias_def Let_def assms)

lemma EncodeRune_42F: "EncodeRune 0x42F = [char_of (0xD0::nat), char_of (0xAF::nat)]"
  by (simp add: EncodeRune_def)

lemma length_string_of_replicate: "length (string_of_runes (replicate n 0x42F)) = 2 * n"
  by (induction n) (simp_all add: string_of_runes_def EncodeRune_42F)

lemma scalar_42F: "list_all scalar (replicate n 0x42F)"
  by (simp add: list_all_iff scalar_def)

theorem Item_MarshalJSON_truncates_witness:
  "length (Description demoItem) = 260 \<and>
   RuneCountInString (Description demoItem) = 130 \<and>
   (\<exists>doc d. Item_MarshalJSON (\<lambda>_. Inr JNull) demoItem = Inr doc \<and> descriptionOf doc = Some d \<and>
        RuneCountInString d = 128 \<and> length d = 256 \<and> ValidString d)"
proof -
  have l: "length (Description demoItem) = 260"
    by (simp add: demoItem_def length_string_of_replicate)
  have rs: "runes (Description demoItem) = replicate 130 0x42F"
    by (simp add: demoItem_def runes_string_of_runes scalar_42F)
  then have n: "RuneCountInString (Description demoItem) = 130"
    by (simp add: RuneCountInString_def)
  have "Amount demoItem = None" by (simp add: demoItem_def)
  from Item_MarshalJSON_returns[OF this]
  obtain doc where doc: "Item_MarshalJSON (\<lambda>_. Inr JNull) demoItem = Inr doc" ..
  from Item_MarshalJSON_truncates[OF doc] obtain d where
    D: "descriptionOf doc = Some d \<and>
           runes d = take 128 (runes (Description demoItem)) \<and>
           ValidString d \<and>
           RuneCountInString d \<le> 128 \<and>
           (RuneCountInString (Description demoItem) > 128 \<longrightarrow> RuneCountInString d = 128) \<and>
           (RuneCountInString (Description demoItem) \<le> 128 \<and> ValidString (Description demoItem) \<longrightarrow> d = Description demoItem)" ..
  note d = D[THEN conjunct1] D[THEN conjunct2, THEN conjunct1] D[THEN conjunct2, THEN conjunct2, THEN conjunct1]
    D[THEN conjunct2, THEN conjunct2, THEN conjunct2, THEN conjunct2, THEN conjunct1]
  have c: "RuneCountInString d = 128" using d(4) n by simp
  have "runes d = replicate 128 0x42F" using d(2) rs by simp
  then have "string_of_runes (runes d) = string_of_runes (replicate 128 0x42F)" by simp
  then have "d = string_of_runes (replicate 128 0x42F)"
    using string_of_runes_runes[OF d(3)] by simp
  then have ld: "length d = 256" by (simp add: length_string_of_replicate)
  have "\<exists>doc d. Item_MarshalJSON (\<lambda>_. Inr JNull) demoItem = Inr doc \<and> descriptionOf doc = Some d \<and>
        RuneCountInString d = 128 \<and> length d = 256 \<and> ValidString d"
    by (intro exI[of _ doc] exI[of _ d] conjI) (rule doc d(1) c ld d(3))+
  with l n show ?thesis by (intro conjI)
qed

end
